theory Spec2Isabelle
  imports Main
begin

section \<open>JavaScript values and strings\<close>

text \<open>
  The controller of \<^verbatim>\<open>kuka_control.js\<close> (the later of the two versions in the file, the one
  with the read loop and the busy flag) is embedded as functions on an explicit state.

  A JavaScript string is a \<^typ>\<open>string\<close>; a \<^typ>\<open>char\<close> stands for the code unit of the same
  number, so the model covers text whose code units are below 256 (the degree sign of the
  labels is code unit \<open>0xB0\<close>).

  An entry of \<^verbatim>\<open>servoAngles\<close> is a number, \<^verbatim>\<open>NaN\<close> (what \<^verbatim>\<open>parseInt\<close> returns for
  text that starts with no digit), or a hole of the array (read as \<^verbatim>\<open>undefined\<close>). Numbers
  are mathematical integers: \<^verbatim>\<open>parseInt\<close> yields integers only, the values the code stores
  after its range check lie in 0..180, where a double is exact, and \<open>-0\<close> is identified
  with \<open>0\<close> (both print as \<^verbatim>\<open>0\<close> and compare alike).
\<close>

datatype jsval = Num int | NaN | Hole

definition newline :: char where
  "newline = CHR 0x0A"

definition degree :: char where
  "degree = CHR 0xB0"

definition digit_char :: "nat \<Rightarrow> char" where
  "digit_char d = ''0123456789'' ! d"

text \<open>Decimal numeral of a natural number: \<^verbatim>\<open>String(n)\<close> for a non-negative integer.\<close>

fun decimal :: "nat \<Rightarrow> string" where
  "decimal n = (if n < 10 then [digit_char n] else decimal (n div 10) @ [digit_char (n mod 10)])"

declare decimal.simps [simp del]

text \<open>
  \<^verbatim>\<open>`${x}`\<close>: the text a template literal inserts for a value. A hole read by index is
  \<^verbatim>\<open>undefined\<close>.
\<close>

fun number_text :: "jsval \<Rightarrow> string" where
  "number_text (Num v) = (if v < 0 then CHR ''-'' # decimal (nat (- v)) else decimal (nat v))"
| "number_text NaN = ''NaN''"
| "number_text Hole = ''undefined''"

text \<open>\<^verbatim>\<open>xs[i]\<close>: reading past the end of an array gives \<^verbatim>\<open>undefined\<close>, as reading a hole does.\<close>

definition array_get :: "jsval list \<Rightarrow> nat \<Rightarrow> jsval" where
  "array_get xs i = (if i < length xs then xs ! i else Hole)"

text \<open>
  \<^verbatim>\<open>xs[i] = v\<close>: writing past the end extends the array, leaving holes in between.
\<close>

definition array_set :: "jsval list \<Rightarrow> nat \<Rightarrow> jsval \<Rightarrow> jsval list" where
  "array_set xs i v =
     (if i < length xs then xs[i := v] else xs @ replicate (i - length xs) Hole @ [v])"

text \<open>
  White space and line terminators that \<^verbatim>\<open>trim\<close> and \<^verbatim>\<open>parseInt\<close> strip, among the code
  units below 256: TAB, LF, VT, FF, CR, SPACE and NBSP.
\<close>

definition is_space :: "char \<Rightarrow> bool" where
  "is_space c = (c \<in> set [CHR 0x09, CHR 0x0A, CHR 0x0B, CHR 0x0C, CHR 0x0D, CHR 0x20, CHR 0xA0])"

definition trim :: "string \<Rightarrow> string" where
  "trim s = rev (dropWhile is_space (rev (dropWhile is_space s)))"

section \<open>The command line of \<^verbatim>\<open>executePosition\<close>\<close>

text \<open>
  \<^verbatim>\<open>
  let command = '';
  for (let i = 0; i < this.numServos; i++) {
      command += `S${i+1} ${this.servoAngles[i]}`;
      if (i < this.numServos - 1) command += ',';
  }
  command += '\n';
  \<close>
\<close>

function command_loop :: "nat \<Rightarrow> nat \<Rightarrow> jsval list \<Rightarrow> string \<Rightarrow> string" where
  "command_loop i n angles command =
     (if i < n
      then command_loop (i + 1) n angles
             (command @ CHR ''S'' # decimal (i + 1) @ CHR '' '' # number_text (array_get angles i)
                @ (if int i < int n - 1 then '','' else ''''))
      else command)"
  by pat_completeness auto
termination
  by (relation "measure (\<lambda>(i, n, angles, command). n - i)") auto

declare command_loop.simps [simp del]

definition build_command :: "nat \<Rightarrow> jsval list \<Rightarrow> string" where
  "build_command n angles = command_loop 0 n angles '''' @ [newline]"

text \<open>
  The command line as the specification words it: the items \<open>Sk ak\<close>, \<open>k\<close> counted from one,
  separated by commas, then one newline.
\<close>

fun join :: "string \<Rightarrow> string list \<Rightarrow> string" where
  "join sep [] = ''''"
| "join sep [x] = x"
| "join sep (x # y # ys) = x @ sep @ join sep (y # ys)"

definition command_item :: "jsval list \<Rightarrow> nat \<Rightarrow> string" where
  "command_item angles k = CHR ''S'' # decimal (k + 1) @ CHR '' '' # number_text (array_get angles k)"

definition spec_item :: "nat \<times> jsval \<Rightarrow> string" where
  "spec_item ka = ''S'' @ decimal (fst ka) @ '' '' @ number_text (snd ka)"

definition spec_command :: "jsval list \<Rightarrow> string" where
  "spec_command angles =
     join '','' (map spec_item (zip [1..<length angles + 1] angles)) @ [newline]"

text \<open>A joint angle of the data model: an integer from 0 to 180.\<close>

definition valid_angle :: "jsval \<Rightarrow> bool" where
  "valid_angle a = (case a of Num v \<Rightarrow> 0 \<le> v \<and> v \<le> 180 | NaN \<Rightarrow> False | Hole \<Rightarrow> False)"

section \<open>\<^verbatim>\<open>parseInt\<close>\<close>

text \<open>
  \<^verbatim>\<open>parseInt(text)\<close> with no radix: leading white space is skipped, then an optional sign,
  then \<^verbatim>\<open>0x\<close> or \<^verbatim>\<open>0X\<close> selects radix 16 (radix 10 otherwise), and the longest run of
  digits of that radix is the value; with no digit the result is \<^verbatim>\<open>NaN\<close>. Whatever
  follows the digits is ignored.
\<close>

definition digit_value :: "char \<Rightarrow> nat option" where
  "digit_value c =
     (let k = (of_char c :: nat) in
      if 48 \<le> k \<and> k \<le> 57 then Some (k - 48)
      else if 97 \<le> k \<and> k \<le> 122 then Some (k - 87)
      else if 65 \<le> k \<and> k \<le> 90 then Some (k - 55)
      else None)"

definition is_digit :: "nat \<Rightarrow> char \<Rightarrow> bool" where
  "is_digit radix c = (case digit_value c of None \<Rightarrow> False | Some d \<Rightarrow> d < radix)"

definition digits_value :: "nat \<Rightarrow> string \<Rightarrow> nat" where
  "digits_value radix ds = foldl (\<lambda>a c. a * radix + the (digit_value c)) 0 ds"

definition strip_sign :: "string \<Rightarrow> bool \<times> string" where
  "strip_sign t =
     (case t of
        [] \<Rightarrow> (False, [])
      | c # r \<Rightarrow> if c = CHR ''-'' then (True, r) else if c = CHR ''+'' then (False, r) else (False, t))"

definition strip_prefix :: "string \<Rightarrow> nat \<times> string" where
  "strip_prefix u =
     (case u of
        c0 # c1 # r \<Rightarrow>
          if c0 = CHR ''0'' \<and> (c1 = CHR ''x'' \<or> c1 = CHR ''X'') then (16, r) else (10, u)
      | _ \<Rightarrow> (10, u))"

definition parseInt :: "string \<Rightarrow> jsval" where
  "parseInt text =
     (let (negative, u) = strip_sign (dropWhile is_space text);
          (radix, w) = strip_prefix u;
          ds = takeWhile (is_digit radix) w
      in if ds = [] then NaN
         else Num ((if negative then - 1 else 1) * int (digits_value radix ds)))"

text \<open>\<^verbatim>\<open>angle >= 0 && angle <= 180\<close>: every comparison with \<^verbatim>\<open>NaN\<close> is false.\<close>

definition js_ge :: "jsval \<Rightarrow> int \<Rightarrow> bool" where
  "js_ge a k = (case a of Num v \<Rightarrow> k \<le> v | NaN \<Rightarrow> False | Hole \<Rightarrow> False)"

definition js_le :: "jsval \<Rightarrow> int \<Rightarrow> bool" where
  "js_le a k = (case a of Num v \<Rightarrow> v \<le> k | NaN \<Rightarrow> False | Hole \<Rightarrow> False)"

section \<open>The controller and its page\<close>

text \<open>
  One record holds the fields of the \<^verbatim>\<open>KukaController\<close> object, the part of the page the
  controller reads and writes, what it has shown or sent so far, and the asynchronous work
  that is pending.

  A servo card is the slider, the number box and the value label that
  \<^verbatim>\<open>createServoCard\<close> renders for one joint; \<^verbatim>\<open>getElementById\<close> finds the card of joint
  \<open>k\<close> at position \<open>k - 1\<close> of \<open>cards\<close> and returns \<^verbatim>\<open>null\<close> for any other number.
  A widget holds the text last assigned to it; the sanitising a browser applies on
  assignment is not modelled (it is the identity on the numerals of 0..180, the only values
  ever assigned in the states reachable from the constructor).

  \<^verbatim>\<open>connectBtn\<close>, \<^verbatim>\<open>sendBtn\<close> and \<^verbatim>\<open>servoGrid\<close> exist, since the constructor dereferences
  them without a check; the status dot, the status text, the state display and the serial
  log are optional, as are the two helpers of \<^verbatim>\<open>window\<close>, which are taken not to throw.
  A port or a reader is named by a number.
\<close>

record card =
  cardLabel :: string
  sliderValue :: string
  sliderMin :: int
  sliderMax :: int
  inputValue :: string
  valueText :: string

datatype ui_call = StateUI string string string string | ConnectionUI bool

datatype io =
    OpenPort nat nat
  | PipeTo nat
  | GetWriter nat
  | Write nat string
  | ReleaseWriter nat
  | CancelReader nat
  | ReleaseReader nat
  | ClosePort nat

datatype error = TypeError

record world =
  numServos :: nat
  port :: "nat option"
  connected :: bool
  servoAngles :: "jsval list"
  lastCommand :: string
  sending :: bool
  reader :: "nat option"
  readableStreamClosed :: "nat option"
  cards :: "card list"
  connectBtn :: string
  sendBtnDisabled :: bool
  statusDot :: "bool option"
  statusText :: "string option"
  currentState :: "string option"
  serialLog :: "string option"
  hasUpdateSystemStateUI :: bool
  hasSetConnectionStatus :: bool
  serialSupported :: bool
  alerts :: "string list"
  console :: "string list"
  uiCalls :: "ui_call list"
  transport :: "io list"
  pendingRequests :: nat
  pendingOpens :: nat
  pendingWrites :: "(nat \<times> string) list"
  timers :: "nat list"
  readTasks :: "nat list"
  now :: nat

definition card_at :: "world \<Rightarrow> nat \<Rightarrow> card option" where
  "card_at s servoNum =
     (if 1 \<le> servoNum \<and> servoNum \<le> length (cards s) then Some (cards s ! (servoNum - 1)) else None)"

definition set_card :: "nat \<Rightarrow> card \<Rightarrow> world \<Rightarrow> world" where
  "set_card servoNum c s = s\<lparr>cards := (cards s)[servoNum - 1 := c]\<rparr>"

text \<open>
  The positions shown, \<^verbatim>\<open>this.servoAngles.map(...).join(', ')\<close>, each angle followed by
  the degree sign: \<^verbatim>\<open>map\<close> leaves a hole a hole, and \<^verbatim>\<open>join\<close> prints a hole as the
  empty text.
\<close>

definition positions_text :: "jsval list \<Rightarrow> string" where
  "positions_text angles =
     join '', '' (map (\<lambda>a. case a of Hole \<Rightarrow> '''' | _ \<Rightarrow> number_text a @ [degree]) angles)"

definition updateSystemState :: "world \<Rightarrow> world" where
  "updateSystemState s =
     (let status = (if connected s then ''Online'' else ''Offline'');
          positions = positions_text (servoAngles s)
      in if hasUpdateSystemStateUI s
         then s\<lparr>uiCalls := uiCalls s @
                  [StateUI (if connected s then ''Active'' else ''Standby'')
                     (''['' @ positions @ '']'') (lastCommand s) status]\<rparr>
         else (case currentState s of
                 None \<Rightarrow> s
               | Some old \<Rightarrow>
                   s\<lparr>currentState := Some (trim
                      (newline # ''// System Status: '' @ (if connected s then ''Active'' else ''Standby'')
                       @ newline # ''// Joint Positions: ['' @ positions @ '']''
                       @ newline # ''// Last Command: '' @ lastCommand s
                       @ newline # ''// Connection: '' @ status))\<rparr>))"

subsection \<open>Construction\<close>

definition checkWebSerialSupport :: "world \<Rightarrow> world" where
  "checkWebSerialSupport s =
     (if \<not> serialSupported s
      then s\<lparr>alerts := alerts s @ [''Web Serial API not supported. Use Chrome/Edge with HTTPS.'']\<rparr>
      else s)"

definition createServoCard :: "nat \<Rightarrow> card" where
  "createServoCard servoNum =
     \<lparr>cardLabel =
        (if 1 \<le> servoNum \<and> servoNum \<le> 5
         then [''Base'', ''Joint 1'', ''Joint 2'', ''Joint 3'', ''Gripper''] ! (servoNum - 1)
         else ''Joint '' @ decimal servoNum),
      sliderValue = ''90'', sliderMin = 0, sliderMax = 180,
      inputValue = ''90'', valueText = ''90'' @ [degree]\<rparr>"

text \<open>
  \<^verbatim>\<open>renderServoCards\<close> empties the grid and appends the card of each joint, and
  \<^verbatim>\<open>attachServoListeners\<close> registers the two handlers of every card (the events below).
\<close>

definition renderServoCards :: "world \<Rightarrow> world" where
  "renderServoCards s =
     foldl (\<lambda>t i. t\<lparr>cards := cards t @ [createServoCard (i + 1)]\<rparr>) (s\<lparr>cards := []\<rparr>)
       [0..<numServos s]"

definition init :: "world \<Rightarrow> world" where
  "init s = updateSystemState (renderServoCards (checkWebSerialSupport s))"

text \<open>
  \<^verbatim>\<open>new KukaController(numServos)\<close> on a page: the argument \<open>page\<close> gives the page as it
  is before, and every field of the new object is set here (\<^verbatim>\<open>_sending\<close>, \<^verbatim>\<open>_reader\<close> and
  \<^verbatim>\<open>readableStreamClosed\<close> start undefined, and nothing is pending). The joint count is
  a natural number and the array a list: the engine's limit on array lengths is not
  modelled.
\<close>

definition KukaController :: "nat \<Rightarrow> world \<Rightarrow> world" where
  "KukaController n page =
     init (page\<lparr>numServos := n, port := None, connected := False,
                servoAngles := replicate n (Num 90), lastCommand := ''None'',
                sending := False, reader := None, readableStreamClosed := None,
                pendingRequests := 0, pendingOpens := 0, pendingWrites := [], timers := [],
                readTasks := []\<rparr>)"

subsection \<open>Angle updates\<close>

text \<open>
  Both handlers dereference the widgets before anything else, so for a joint without a
  card they throw a \<^verbatim>\<open>TypeError\<close> and change nothing.
\<close>

definition updateFromSlider :: "nat \<Rightarrow> world \<Rightarrow> error + world" where
  "updateFromSlider servoNum s =
     (case card_at s servoNum of
        None \<Rightarrow> Inl TypeError
      | Some c \<Rightarrow>
          let angle = parseInt (sliderValue c)
          in Inr (updateSystemState
                   (set_card servoNum
                      (c\<lparr>inputValue := number_text angle, valueText := number_text angle @ [degree]\<rparr>)
                      (s\<lparr>servoAngles := array_set (servoAngles s) (servoNum - 1) angle\<rparr>))))"

definition updateFromInput :: "nat \<Rightarrow> world \<Rightarrow> error + world" where
  "updateFromInput servoNum s =
     (case card_at s servoNum of
        None \<Rightarrow> Inl TypeError
      | Some c \<Rightarrow>
          let angle = parseInt (inputValue c)
          in if js_ge angle 0 \<and> js_le angle 180
             then Inr (updateSystemState
                        (set_card servoNum
                           (c\<lparr>sliderValue := number_text angle,
                              valueText := number_text angle @ [degree]\<rparr>)
                           (s\<lparr>servoAngles := array_set (servoAngles s) (servoNum - 1) angle\<rparr>)))
             else Inr s)"

subsection \<open>Connecting\<close>

text \<open>
  \<^verbatim>\<open>connect\<close> awaits twice: the port request and the opening of the port. Each await ends
  with a result of the environment, and between the two other handlers may run, so
  \<^verbatim>\<open>connect\<close> is three steps: the call, the continuation after the request, and the
  continuation after the opening. A thrown error is represented by its \<^verbatim>\<open>message\<close>.
\<close>

datatype port_request = Granted nat | Denied string

text \<open>
  What \<^verbatim>\<open>startReading\<close> meets: a port without a readable side, a set-up of the decoder
  pipe that throws, or a reader that starts reading.
\<close>

datatype read_start = NoReadable | PipeThrows string | Reading

datatype open_result = OpenOk read_start | OpenFailed string

definition connect_failed :: "string \<Rightarrow> world \<Rightarrow> world" where
  "connect_failed msg s =
     s\<lparr>console := console s @ [''[ERROR] Connection failed: '' @ msg],
       alerts := alerts s @ [''Connection failed: '' @ msg]\<rparr>"

definition startReading :: "read_start \<Rightarrow> world \<Rightarrow> world" where
  "startReading r s =
     (case port s of
        None \<Rightarrow> s
      | Some p \<Rightarrow>
          (case r of
             NoReadable \<Rightarrow> s
           | PipeThrows msg \<Rightarrow> s\<lparr>console := console s @ [''Read loop error: '' @ msg]\<rparr>
           | Reading \<Rightarrow>
               let s1 = s\<lparr>transport := transport s @ [PipeTo p],
                          readableStreamClosed := Some p, reader := Some p\<rparr>
               in if connected s1 then s1\<lparr>readTasks := readTasks s1 @ [p]\<rparr> else s1))"

definition connect_call :: "world \<Rightarrow> world" where
  "connect_call s = s\<lparr>pendingRequests := pendingRequests s + 1\<rparr>"

definition port_settled :: "port_request \<Rightarrow> world \<Rightarrow> world" where
  "port_settled r s =
     (let s0 = s\<lparr>pendingRequests := pendingRequests s - 1\<rparr>
      in case r of
           Denied msg \<Rightarrow> connect_failed msg s0
         | Granted p \<Rightarrow>
             s0\<lparr>port := Some p, transport := transport s0 @ [OpenPort p 9600],
                pendingOpens := pendingOpens s0 + 1\<rparr>)"

definition open_settled :: "open_result \<Rightarrow> world \<Rightarrow> world" where
  "open_settled r s =
     (let s0 = s\<lparr>pendingOpens := pendingOpens s - 1\<rparr>
      in case r of
           OpenFailed msg \<Rightarrow> connect_failed msg s0
         | OpenOk rs \<Rightarrow>
             let s1 = s0\<lparr>connected := True, connectBtn := ''DISCONNECT'',
                         statusDot := map_option (\<lambda>on. True) (statusDot s0)\<rparr>;
                 s2 = (if hasSetConnectionStatus s1
                       then s1\<lparr>uiCalls := uiCalls s1 @ [ConnectionUI True]\<rparr>
                       else s1\<lparr>statusText := map_option (\<lambda>old. ''CONNECTED'') (statusText s1),
                               sendBtnDisabled := False\<rparr>);
                 s3 = updateSystemState (s2\<lparr>lastCommand := ''Connected''\<rparr>);
                 s4 = s3\<lparr>console := console s3 @ [''[SYSTEM] Serial connection established'']\<rparr>
             in startReading rs s4)"

text \<open>One call of \<^verbatim>\<open>connect\<close> run from start to end with nothing in between.\<close>

datatype connect_outcome = RequestDenied string | OpenRejected nat string | Opened nat read_start

definition connect :: "connect_outcome \<Rightarrow> world \<Rightarrow> world" where
  "connect r s =
     (case r of
        RequestDenied msg \<Rightarrow> port_settled (Denied msg) (connect_call s)
      | OpenRejected p msg \<Rightarrow> open_settled (OpenFailed msg) (port_settled (Granted p) (connect_call s))
      | Opened p rs \<Rightarrow> open_settled (OpenOk rs) (port_settled (Granted p) (connect_call s)))"

subsection \<open>Disconnecting\<close>

text \<open>
  What the three guarded calls of the teardown do: each may throw, and each sits in a
  \<^verbatim>\<open>try\<close> with an empty \<^verbatim>\<open>catch\<close>. A throwing \<^verbatim>\<open>cancel\<close> skips the \<^verbatim>\<open>releaseLock\<close> that
  follows it in the same block; nothing follows the other two calls in theirs.
\<close>

record teardown =
  cancelThrows :: bool
  releaseThrows :: bool
  closeThrows :: bool

definition disconnect :: "teardown \<Rightarrow> world \<Rightarrow> world" where
  "disconnect td s =
     (let s1 = (case port s of
                  None \<Rightarrow> s
                | Some p \<Rightarrow>
                    let s2 = (case reader s of
                                None \<Rightarrow> s
                              | Some r \<Rightarrow>
                                  if cancelThrows td
                                  then s\<lparr>transport := transport s @ [CancelReader r]\<rparr>
                                  else s\<lparr>transport := transport s @ [CancelReader r, ReleaseReader r]\<rparr>);
                        s3 = s2\<lparr>transport := transport s2 @ [ClosePort p]\<rparr>
                    in s3\<lparr>port := None\<rparr>);
          s4 = s1\<lparr>connected := False, connectBtn := ''CONNECT'',
                    statusDot := map_option (\<lambda>on. False) (statusDot s1)\<rparr>;
          s5 = (if hasSetConnectionStatus s4
                then s4\<lparr>uiCalls := uiCalls s4 @ [ConnectionUI False]\<rparr>
                else s4\<lparr>statusText := map_option (\<lambda>old. ''DISCONNECTED'') (statusText s4),
                        sendBtnDisabled := True\<rparr>);
          s6 = updateSystemState (s5\<lparr>lastCommand := ''Disconnected''\<rparr>)
      in s6\<lparr>console := console s6 @ [''[SYSTEM] Serial connection terminated'']\<rparr>)"

text \<open>The click on the connect button: the synchronous part of \<^verbatim>\<open>toggleConnection\<close>.\<close>

definition toggleConnection :: "teardown \<Rightarrow> world \<Rightarrow> world" where
  "toggleConnection td s = (if \<not> connected s then connect_call s else disconnect td s)"

subsection \<open>Sending\<close>

text \<open>
  \<^verbatim>\<open>executePosition\<close> awaits the write. Up to there it is one step, which depends on
  whether \<^verbatim>\<open>this.port.writable.getWriter()\<close> throws; the rest runs when the write has
  settled. A send that waits for its write is an entry of \<open>pendingWrites\<close>: the port and
  the local \<^verbatim>\<open>command\<close>. The timer of the cool-down is an entry of \<open>timers\<close>: the time
  at which it is due, 300 ms after it was set.
\<close>

datatype writer_env = WriterOk | GetWriterThrows string

datatype write_result = Written | WriteFailed string

definition send_failed :: "string \<Rightarrow> world \<Rightarrow> world" where
  "send_failed msg s =
     s\<lparr>console := console s @ [''[ERROR] Command execution failed: '' @ msg],
       alerts := alerts s @ [''Failed to execute command: '' @ msg]\<rparr>"

definition start_cooldown :: "world \<Rightarrow> world" where
  "start_cooldown s = s\<lparr>timers := timers s @ [now s + 300]\<rparr>"

definition executePosition :: "writer_env \<Rightarrow> world \<Rightarrow> world" where
  "executePosition g s =
     (case port s of
        None \<Rightarrow> s
      | Some p \<Rightarrow>
          if \<not> connected s then s
          else if sending s then s
          else
            let s1 = s\<lparr>sending := True, sendBtnDisabled := True\<rparr>;
                command = build_command (numServos s1) (servoAngles s1)
            in case g of
                 GetWriterThrows msg \<Rightarrow> start_cooldown (send_failed msg s1)
               | WriterOk \<Rightarrow>
                   s1\<lparr>transport := transport s1 @ [GetWriter p, Write p command],
                      pendingWrites := pendingWrites s1 @ [(p, command)]\<rparr>)"

definition write_settled :: "nat \<Rightarrow> write_result \<Rightarrow> world \<Rightarrow> world" where
  "write_settled k r s =
     (let (p, command) = pendingWrites s ! k;
          s1 = s\<lparr>pendingWrites := take k (pendingWrites s) @ drop (Suc k) (pendingWrites s),
                 transport := transport s @ [ReleaseWriter p]\<rparr>
      in start_cooldown
           (case r of
              Written \<Rightarrow>
                let s2 = updateSystemState (s1\<lparr>lastCommand := trim command\<rparr>)
                in s2\<lparr>console := console s2 @ [''[COMMAND] '' @ trim command]\<rparr>
            | WriteFailed msg \<Rightarrow> send_failed msg s1))"

text \<open>The callback of the timer.\<close>

definition cooldown_callback :: "world \<Rightarrow> world" where
  "cooldown_callback s =
     (let s1 = s\<lparr>sending := False\<rparr>
      in if connected s1 then s1\<lparr>sendBtnDisabled := False\<rparr> else s1)"

subsection \<open>Reset\<close>

fun reset_loop :: "nat list \<Rightarrow> world \<Rightarrow> error + world" where
  "reset_loop [] s = Inr s"
| "reset_loop (i # rest) s =
     (case card_at s i of
        None \<Rightarrow> Inl TypeError
      | Some c \<Rightarrow>
          reset_loop rest
            (set_card i (c\<lparr>sliderValue := ''90'', inputValue := ''90'', valueText := ''90'' @ [degree]\<rparr>) s
               \<lparr>servoAngles := array_set (servoAngles s) (i - 1) (Num 90)\<rparr>))"

text \<open>
  \<^verbatim>\<open>window.resetAllServos\<close>, for an existing controller. The loop above goes through the
  joints; at a joint without a card it throws a \<^verbatim>\<open>TypeError\<close>, and the model then gives the
  error alone, not the state the loop had reached. The call of \<^verbatim>\<open>executePosition\<close>
  returns a promise at once, so the \<^verbatim>\<open>try\<close> around it catches nothing.
\<close>

definition resetAllServos :: "writer_env \<Rightarrow> world \<Rightarrow> error + world" where
  "resetAllServos g s =
     (case reset_loop [1..<numServos s + 1] s of
        Inl e \<Rightarrow> Inl e
      | Inr s1 \<Rightarrow>
          let s2 = updateSystemState s1;
              s3 = s2\<lparr>console := console s2 @ [''[SYSTEM] All joints reset to home position'']\<rparr>
          in Inr (if connected s3 then executePosition g s3 else s3))"

subsection \<open>The read loop\<close>

text \<open>\<^verbatim>\<open>value.split(/\r?\n/)\<close>, with the line read so far as second argument.\<close>

fun split_lines :: "string \<Rightarrow> string \<Rightarrow> string list" where
  "split_lines [] cur = [cur]"
| "split_lines [c] cur = (if c = newline then [cur, ''''] else [cur @ [c]])"
| "split_lines (c # d # rest) cur =
     (if c = newline then cur # split_lines (d # rest) ''''
      else if c = CHR 0x0D \<and> d = newline then cur # split_lines rest ''''
      else split_lines (d # rest) (cur @ [c]))"

definition chunk_lines :: "string \<Rightarrow> string list" where
  "chunk_lines chunk = filter (\<lambda>l. length (trim l) \<noteq> 0) (split_lines chunk '''')"

text \<open>
  \<^verbatim>\<open>appendSerialLog\<close>: without the log element nothing happens; with it, the line is
  appended behind the time of the call, which the environment renders from its clock.
\<close>

definition appendSerialLog :: "(nat \<Rightarrow> string) \<Rightarrow> string \<Rightarrow> world \<Rightarrow> world" where
  "appendSerialLog toLocaleTimeString line s =
     (case serialLog s of
        None \<Rightarrow> s
      | Some old \<Rightarrow>
          s\<lparr>serialLog := Some (old @ ''['' @ toLocaleTimeString (now s) @ ''] '' @ line @ [newline])\<rparr>)"

datatype read_result = Chunk string | Done | ReadError string

definition end_task :: "nat \<Rightarrow> world \<Rightarrow> world" where
  "end_task k s = s\<lparr>readTasks := take k (readTasks s) @ drop (Suc k) (readTasks s)\<rparr>"

text \<open>One turn of the loop of \<^verbatim>\<open>startReading\<close>, when the read of task \<open>k\<close> has settled.\<close>

definition read_settled :: "(nat \<Rightarrow> string) \<Rightarrow> nat \<Rightarrow> read_result \<Rightarrow> world \<Rightarrow> world" where
  "read_settled clock k r s =
     (case r of
        Done \<Rightarrow> end_task k s
      | ReadError msg \<Rightarrow> end_task k (s\<lparr>console := console s @ [''Read loop error: '' @ msg]\<rparr>)
      | Chunk chunk \<Rightarrow>
          let s1 = (if chunk \<noteq> ''''
                    then foldl (\<lambda>t line. appendSerialLog clock line t) s (chunk_lines chunk)
                    else s)
          in if connected s1 then s1 else end_task k s1)"

section \<open>Events and reachable states\<close>

text \<open>
  What can happen to a controller. The slider of a card is a range widget with the
  bounds \<^verbatim>\<open>min="0" max="180"\<close> that \<^verbatim>\<open>createServoCard\<close> writes, so the value it holds
  when its handler runs is a whole number within the bounds; the number box holds any
  text. A handler of a card runs for the joints \<^verbatim>\<open>attachServoListeners\<close> went through.
  The send may be asked for whatever the send button shows, as the reset asks for it
  without the button. A continuation runs when its await is pending, a timer fires when
  it is due or later, and time only moves on. \<open>fire\<close> is \<open>None\<close> for an event that
  cannot happen in the state, and for a handler that throws.
\<close>

datatype event =
    Slide nat int
  | Type nat string
  | ClickConnect teardown
  | PortSettled port_request
  | OpenSettled open_result
  | ClickSend writer_env
  | WriteSettled nat write_result
  | CooldownElapsed
  | ClickReset writer_env
  | ReadSettled "nat \<Rightarrow> string" nat read_result
  | Tick nat

definition to_option :: "error + world \<Rightarrow> world option" where
  "to_option r = (case r of Inl e \<Rightarrow> None | Inr s \<Rightarrow> Some s)"

fun fire :: "event \<Rightarrow> world \<Rightarrow> world option" where
  "fire (Slide j v) s =
     (case card_at s j of
        None \<Rightarrow> None
      | Some c \<Rightarrow>
          if j \<le> numServos s \<and> sliderMin c \<le> v \<and> v \<le> sliderMax c
          then to_option (updateFromSlider j (set_card j (c\<lparr>sliderValue := number_text (Num v)\<rparr>) s))
          else None)"
| "fire (Type j text) s =
     (case card_at s j of
        None \<Rightarrow> None
      | Some c \<Rightarrow>
          if j \<le> numServos s
          then to_option (updateFromInput j (set_card j (c\<lparr>inputValue := text\<rparr>) s))
          else None)"
| "fire (ClickConnect td) s = Some (toggleConnection td s)"
| "fire (PortSettled r) s = (if 0 < pendingRequests s then Some (port_settled r s) else None)"
| "fire (OpenSettled r) s = (if 0 < pendingOpens s then Some (open_settled r s) else None)"
| "fire (ClickSend g) s = Some (executePosition g s)"
| "fire (WriteSettled k r) s =
     (if k < length (pendingWrites s) then Some (write_settled k r s) else None)"
| "fire CooldownElapsed s =
     (case timers s of
        [] \<Rightarrow> None
      | due # rest \<Rightarrow> if due \<le> now s then Some (cooldown_callback (s\<lparr>timers := rest\<rparr>)) else None)"
| "fire (ClickReset g) s = to_option (resetAllServos g s)"
| "fire (ReadSettled clock k r) s =
     (if k < length (readTasks s) then Some (read_settled clock k r s) else None)"
| "fire (Tick d) s = Some (s\<lparr>now := now s + d\<rparr>)"

fun run :: "event list \<Rightarrow> world \<Rightarrow> world option" where
  "run [] s = Some s"
| "run (e # es) s = (case fire e s of None \<Rightarrow> None | Some s' \<Rightarrow> run es s')"

inductive reachable :: "world \<Rightarrow> bool" where
  start: "reachable (KukaController n page)"
| step: "reachable s \<Longrightarrow> fire e s = Some s' \<Longrightarrow> reachable s'"

section \<open>Auxiliary notions\<close>

text \<open>The characters of a decimal numeral.\<close>

definition plain_digit :: "char \<Rightarrow> bool" where
  "plain_digit c = (c \<in> set ''0123456789'')"

text \<open>
  A page for the examples: nothing shown yet, a status dot, a status text and an empty
  serial log, no state display, no helper installed, Web Serial supported. The fields of the controller are
  placeholders, which the constructor overwrites.
\<close>

definition demo_page :: world where
  "demo_page =
     \<lparr>numServos = 0, port = None, connected = False, servoAngles = [], lastCommand = '''',
      sending = False, reader = None, readableStreamClosed = None, cards = [],
      connectBtn = ''CONNECT'', sendBtnDisabled = True, statusDot = Some False,
      statusText = Some ''DISCONNECTED'', currentState = None, serialLog = Some '''',
      hasUpdateSystemStateUI = False, hasSetConnectionStatus = False, serialSupported = True,
      alerts = [], console = [], uiCalls = [], transport = [],
      pendingRequests = 0, pendingOpens = 0, pendingWrites = [], timers = [], readTasks = [],
      now = 0\<rparr>"

text \<open>The controller of the page, with five joints, as the script creates it.\<close>

definition demo :: world where
  "demo = KukaController 5 demo_page"

text \<open>The text \<open>t\<close> entered in the number box of joint \<open>j\<close>, before the handler runs.\<close>

definition typed :: "nat \<Rightarrow> string \<Rightarrow> world \<Rightarrow> world" where
  "typed j t s = (case card_at s j of None \<Rightarrow> s | Some c \<Rightarrow> set_card j (c\<lparr>inputValue := t\<rparr>) s)"

text \<open>The angle vector a handler leaves behind; none when the handler throws.\<close>

definition angles_after :: "error + world \<Rightarrow> jsval list" where
  "angles_after r = (case r of Inl e \<Rightarrow> [] | Inr s \<Rightarrow> servoAngles s)"

text \<open>
  The lines of a chunk as the specification words them: split, then drop the empty ones.
\<close>

definition spec_chunk_lines :: "string \<Rightarrow> string list" where
  "spec_chunk_lines chunk = filter (\<lambda>l. l \<noteq> '''') (split_lines chunk '''')"

definition blank :: "string \<Rightarrow> bool" where
  "blank l = list_all is_space l"

text \<open>What \<^verbatim>\<open>appendSerialLog\<close> appends for a line, at the time \<open>stamp\<close>.\<close>

definition log_entry :: "string \<Rightarrow> string \<Rightarrow> string" where
  "log_entry stamp line = ''['' @ stamp @ ''] '' @ line @ [newline]"

section \<open>Invariants\<close>

text \<open>The bounds that \<^verbatim>\<open>createServoCard\<close> gives the slider of a card.\<close>

definition card_bounds :: "card \<Rightarrow> bool" where
  "card_bounds c = (sliderMin c = 0 \<and> sliderMax c = 180)"

text \<open>
  The shape of a controller: one angle and one card per joint, every angle an integer
  from 0 to 180, every slider with its bounds.
\<close>

definition well_formed :: "world \<Rightarrow> bool" where
  "well_formed s = (length (servoAngles s) = numServos s \<and> length (cards s) = numServos s
           \<and> list_all valid_angle (servoAngles s) \<and> list_all card_bounds (cards s))"

text \<open>
  The discipline of sending: the sends that wait for their write and the cool-down
  timers that are set number at most one together, and while there is one the busy flag is
  set.
\<close>

definition send_inv :: "world \<Rightarrow> bool" where
  "send_inv s = (length (pendingWrites s) + length (timers s) \<le> 1
                 \<and> (sending s \<or> (pendingWrites s = [] \<and> timers s = [])))"

section \<open>Example runs\<close>

text \<open>
  The port 1 is granted and opened and its reader started; a send is made, and a second one
  while the first waits for its write; the write completes; a third send is tried during
  the cool-down; 300 ms pass and the timer fires.
\<close>

definition connect_events :: "event list" where
  "connect_events =
     [ClickConnect \<lparr>cancelThrows = False, releaseThrows = False, closeThrows = False\<rparr>,
      PortSettled (Granted 1), OpenSettled (OpenOk Reading)]"

definition send_events :: "event list" where
  "send_events =
     connect_events @
     [ClickSend WriterOk, ClickSend WriterOk, WriteSettled 0 Written, ClickSend WriterOk,
      Tick 300, CooldownElapsed]"

text \<open>The controller connected to port 1 and idle, and the same with its send waiting.\<close>

definition demo_connected :: world where
  "demo_connected = the (run connect_events demo)"

definition demo_sending :: world where
  "demo_sending = the (run (connect_events @ [ClickSend WriterOk]) demo)"

definition demo_cooled :: world where
  "demo_cooled = the (run send_events demo)"

text \<open>A teardown in which no call throws.\<close>

definition quiet :: teardown where
  "quiet = \<lparr>cancelThrows = False, releaseThrows = False, closeThrows = False\<rparr>"

text \<open>The controller after 45 was entered for joint 2, not connected and connected.\<close>

definition demo_moved :: world where
  "demo_moved = the (run [Type 2 ''45''] demo)"

definition demo_connected_moved :: world where
  "demo_connected_moved = the (run (connect_events @ [Type 2 ''45'']) demo)"

section \<open>Properties of the command line\<close>

lemma join_map_upt:
  "i < n \<Longrightarrow> join sep (map f [i..<n]) =
     f i @ (if i + 1 < n then sep @ join sep (map f [i + 1..<n]) else '''')"
proof -
  assume lt: "i < n"
  show ?thesis
  proof (cases "i + 1 < n")
    case True
    then have "[i..<n] = i # (i + 1) # [i + 2..<n]"
      by (simp add: upt_conv_Cons)
    moreover from True have "[i + 1..<n] = (i + 1) # [i + 2..<n]"
      by (simp add: upt_conv_Cons)
    ultimately show ?thesis using True by simp
  next
    case False
    with lt have "[i..<n] = [i]"
      by (simp add: upt_conv_Cons)
    with False show ?thesis by simp
  qed
qed

lemma command_loop_join:
  "command_loop i n angles command =
     command @ join '','' (map (command_item angles) [i..<n])"
proof (induction i n angles command rule: command_loop.induct)
  case (1 i n angles command)
  show ?case
  proof (cases "i < n")
    case True
    have sep: "(int i < int n - 1) = (i + 1 < n)" by auto
    let ?next = "command @ CHR ''S'' # decimal (i + 1) @ CHR '' '' # number_text (array_get angles i)
                   @ (if int i < int n - 1 then '','' else '''')"
    have "command_loop i n angles command = command_loop (i + 1) n angles ?next"
      using True by (subst command_loop.simps) simp
    also have "\<dots> = ?next @ join '','' (map (command_item angles) [i + 1..<n])"
      by (rule "1.IH" [OF True])
    also have "\<dots> = command @ join '','' (map (command_item angles) [i..<n])"
      by (simp add: join_map_upt [OF True] command_item_def [of angles i] sep)
    finally show ?thesis .
  next
    case False
    then show ?thesis
      by (subst command_loop.simps) simp
  qed
qed

lemma spec_items:
  "map spec_item (zip [1..<length angles + 1] angles) =
     map (command_item angles) [0..<length angles]"
  by (rule nth_equalityI)
     (simp_all add: spec_item_def command_item_def array_get_def del: upt_Suc)

text \<open>
  C1. For every vector of joint angles, the loop of \<^verbatim>\<open>executePosition\<close> run with the
  vector's own length as joint count builds exactly the line \<open>S1 a1,S2 a2,...,SN aN\<close>
  followed by one newline: joints counted from one, a space before each angle, commas
  between the items and none after the last. The function is total, and for five angles
  of 90 the line is \<open>S1 90,S2 90,S3 90,S4 90,S5 90\<close> and a newline.
\<close>

theorem build_command_spec:
  "build_command (length angles) angles = spec_command angles
   \<and> build_command 5 (replicate 5 (Num 90)) = ''S1 90,S2 90,S3 90,S4 90,S5 90'' @ [newline]"
proof
  show "build_command (length angles) angles = spec_command angles"
    by (simp only: build_command_def spec_command_def command_loop_join spec_items append_Nil)
  show "build_command 5 (replicate 5 (Num 90)) = ''S1 90,S2 90,S3 90,S4 90,S5 90'' @ [newline]"
    by code_simp
qed

section \<open>Frame lemmas\<close>

lemma updateSystemState_fields [simp]:
  "numServos (updateSystemState s) = numServos s"
  "port (updateSystemState s) = port s"
  "connected (updateSystemState s) = connected s"
  "servoAngles (updateSystemState s) = servoAngles s"
  "lastCommand (updateSystemState s) = lastCommand s"
  "sending (updateSystemState s) = sending s"
  "reader (updateSystemState s) = reader s"
  "readableStreamClosed (updateSystemState s) = readableStreamClosed s"
  "cards (updateSystemState s) = cards s"
  "connectBtn (updateSystemState s) = connectBtn s"
  "sendBtnDisabled (updateSystemState s) = sendBtnDisabled s"
  "statusDot (updateSystemState s) = statusDot s"
  "statusText (updateSystemState s) = statusText s"
  "serialLog (updateSystemState s) = serialLog s"
  "hasUpdateSystemStateUI (updateSystemState s) = hasUpdateSystemStateUI s"
  "hasSetConnectionStatus (updateSystemState s) = hasSetConnectionStatus s"
  "serialSupported (updateSystemState s) = serialSupported s"
  "alerts (updateSystemState s) = alerts s"
  "console (updateSystemState s) = console s"
  "transport (updateSystemState s) = transport s"
  "pendingRequests (updateSystemState s) = pendingRequests s"
  "pendingOpens (updateSystemState s) = pendingOpens s"
  "pendingWrites (updateSystemState s) = pendingWrites s"
  "timers (updateSystemState s) = timers s"
  "readTasks (updateSystemState s) = readTasks s"
  "now (updateSystemState s) = now s"
  by (simp_all add: updateSystemState_def Let_def split: option.split)

section \<open>The constructor\<close>

lemma render_fold:
  "foldl (\<lambda>t i. t\<lparr>cards := cards t @ [createServoCard (i + 1)]\<rparr>) t [0..<n] =
     t\<lparr>cards := cards t @ map (\<lambda>i. createServoCard (i + 1)) [0..<n]\<rparr>"
  by (induction n) simp_all

lemma renderServoCards_eq:
  "renderServoCards s = s\<lparr>cards := map (\<lambda>i. createServoCard (i + 1)) [0..<numServos s]\<rparr>"
  unfolding renderServoCards_def render_fold by simp

lemma init_fields:
  "numServos (init s) = numServos s"
  "port (init s) = port s"
  "connected (init s) = connected s"
  "servoAngles (init s) = servoAngles s"
  "lastCommand (init s) = lastCommand s"
  "sending (init s) = sending s"
  "pendingWrites (init s) = pendingWrites s"
  "timers (init s) = timers s"
  "length (cards (init s)) = numServos s"
  by (simp_all add: init_def renderServoCards_eq checkWebSerialSupport_def)

text \<open>
  C9. For every joint count \<open>n\<close> and every page, the constructor yields a controller whose
  angle vector has exactly \<open>n\<close> entries, each 90, whose port is \<^verbatim>\<open>null\<close>, which is not
  connected, and whose \<^verbatim>\<open>lastCommand\<close> is \<^verbatim>\<open>None\<close>.
\<close>

theorem constructor_initial:
  "length (servoAngles (KukaController n page)) = n
   \<and> servoAngles (KukaController n page) = replicate n (Num 90)
   \<and> port (KukaController n page) = None
   \<and> connected (KukaController n page) = False
   \<and> lastCommand (KukaController n page) = ''None''"
  by (simp add: KukaController_def init_fields)

section \<open>Numerals and \<^verbatim>\<open>parseInt\<close>\<close>

lemma small_cases: "d < 10 \<Longrightarrow> d \<in> {0, 1, 2, 3, 4, 5, 6, 7, 8, 9::nat}"
  by auto

lemma digit_char_props:
  assumes "d < 10"
  shows "digit_value (digit_char d) = Some d" and "plain_digit (digit_char d)"
  using small_cases [OF assms]
  by (auto simp: digit_char_def digit_value_def plain_digit_def)

lemma plain_digit_props:
  assumes "plain_digit c"
  shows "is_digit 10 c" and "\<not> is_space c" and "c \<noteq> CHR ''-''" and "c \<noteq> CHR ''+''"
    and "c \<noteq> CHR ''x''" and "c \<noteq> CHR ''X''" and "c \<noteq> newline"
  using assms
  by (auto simp: plain_digit_def is_digit_def digit_value_def is_space_def newline_def)

lemma decimal_digits: "list_all plain_digit (decimal n)"
proof (induction n rule: decimal.induct)
  case (1 n)
  show ?case
  proof (cases "n < 10")
    case True
    then show ?thesis
      by (subst decimal.simps) (simp add: digit_char_props(2))
  next
    case False
    have "n mod 10 < 10" by simp
    then have "plain_digit (digit_char (n mod 10))"
      by (rule digit_char_props(2))
    with False "1.IH" show ?thesis
      by (subst decimal.simps) simp
  qed
qed

lemma decimal_nonempty: "decimal n \<noteq> []"
  by (subst decimal.simps) simp

lemma digits_value_snoc:
  "digits_value r (ds @ [c]) = digits_value r ds * r + the (digit_value c)"
  by (simp add: digits_value_def)

lemma digits_value_decimal: "digits_value 10 (decimal n) = n"
proof (induction n rule: decimal.induct)
  case (1 n)
  show ?case
  proof (cases "n < 10")
    case True
    then show ?thesis
      by (subst decimal.simps) (simp add: digits_value_def digit_char_props(1))
  next
    case False
    have "n mod 10 < 10" by simp
    note dv = digit_char_props(1) [OF this]
    from False "1.IH" show ?thesis
      by (subst decimal.simps) (simp add: digits_value_snoc dv)
  qed
qed

lemma parse_digits:
  assumes all: "list_all plain_digit ds" and ne: "ds \<noteq> []"
  shows "dropWhile is_space ds = ds"
    and "strip_sign ds = (False, ds)"
    and "strip_prefix ds = (10, ds)"
    and "takeWhile (is_digit 10) ds = ds"
proof -
  from ne obtain c rest where ds: "ds = c # rest" by (cases ds) auto
  with all have c: "plain_digit c" and rest: "list_all plain_digit rest" by simp_all
  show "dropWhile is_space ds = ds"
    using plain_digit_props(2) [OF c] by (simp add: ds)
  show "strip_sign ds = (False, ds)"
    using plain_digit_props(3,4) [OF c] by (simp add: ds strip_sign_def)
  show "strip_prefix ds = (10, ds)"
  proof (cases rest)
    case Nil
    then show ?thesis by (simp add: ds strip_prefix_def)
  next
    case (Cons d more)
    with rest have "plain_digit d" by simp
    from plain_digit_props(5,6) [OF this] show ?thesis
      by (simp add: ds Cons strip_prefix_def)
  qed
  have "\<forall>x\<in>set ds. is_digit 10 x"
    using all plain_digit_props(1) by (auto simp: list_all_iff)
  then show "takeWhile (is_digit 10) ds = ds"
    by (simp add: takeWhile_eq_all_conv)
qed

lemma parseInt_decimal: "parseInt (decimal n) = Num (int n)"
  by (simp add: parseInt_def Let_def decimal_nonempty digits_value_decimal
        parse_digits [OF decimal_digits decimal_nonempty])

lemma parseInt_number_text: "parseInt (number_text (Num v)) = Num v"
proof (cases "v < 0")
  case False
  then show ?thesis by (simp add: parseInt_decimal)
next
  case True
  let ?ds = "decimal (nat (- v))"
  have "strip_sign (dropWhile is_space (CHR ''-'' # ?ds)) = (True, ?ds)"
    by (simp add: is_space_def strip_sign_def)
  with True show ?thesis
    by (simp add: parseInt_def Let_def decimal_nonempty digits_value_decimal
          parse_digits(3,4) [OF decimal_digits decimal_nonempty] del: dropWhile.simps)
qed

section \<open>Arrays\<close>

lemma array_get_set_same [simp]: "array_get (array_set xs i v) i = v"
  by (simp add: array_get_def array_set_def nth_append)

lemma array_get_set_other [simp]: "k \<noteq> i \<Longrightarrow> array_get (array_set xs i v) k = array_get xs k"
  by (auto simp: array_get_def array_set_def nth_append)

lemma in_range_iff: "(js_ge a 0 \<and> js_le a 180) = valid_angle a"
  by (cases a) (simp_all add: js_ge_def js_le_def valid_angle_def)

section \<open>The numeric input\<close>

text \<open>
  C2, as the code has it. The handler decides on the integer that \<^verbatim>\<open>parseInt\<close> reads off the
  front of the text in the number box, not on the value the text denotes. For every joint
  \<open>j\<close> that has a card and every text in its number box, the update is accepted exactly when
  that parsed integer lies from 0 to 180: then the stored angle of joint \<open>j\<close> becomes the
  parsed integer and no other entry changes; when the parsed integer is out of range, or
  the text starts with no number, the handler returns with the whole state as it was. The
  handler signals nothing: the rejection, which the specification names InvalidAngle, is
  this silent return. For the numeral of an integer \<open>v\<close> the parsed integer is \<open>v\<close> itself.
\<close>

theorem updateFromInput_range:
  assumes "card_at s j = Some c"
  shows "(valid_angle (parseInt (inputValue c)) \<longrightarrow>
            (\<exists>s'. updateFromInput j s = Inr s'
                 \<and> array_get (servoAngles s') (j - 1) = parseInt (inputValue c)
                 \<and> (\<forall>k. k \<noteq> j - 1 \<longrightarrow> array_get (servoAngles s') k = array_get (servoAngles s) k)))
       \<and> (\<not> valid_angle (parseInt (inputValue c)) \<longrightarrow> updateFromInput j s = Inr s)
       \<and> (\<forall>v. parseInt (number_text (Num v)) = Num v \<and> valid_angle (Num v) = (0 \<le> v \<and> v \<le> 180))"
  using assms
  by (simp add: updateFromInput_def Let_def in_range_iff set_card_def parseInt_number_text
        valid_angle_def del: number_text.simps)

theorem updateFromInput_range_witness:
  "(\<exists>s'. updateFromInput 2 (typed 2 ''45'' demo) = Inr s' \<and> array_get (servoAngles s') 1 = Num 45
        \<and> array_get (servoAngles s') 0 = Num 90)
   \<and> updateFromInput 2 (typed 2 ''200'' demo) = Inr (typed 2 ''200'' demo)
   \<and> updateFromInput 2 (typed 2 ''-1'' demo) = Inr (typed 2 ''-1'' demo)
   \<and> updateFromInput 2 (typed 2 ''abc'' demo) = Inr (typed 2 ''abc'' demo)"
proof -
  let ?card = "\<lambda>t. \<lparr>cardLabel = ''Joint 1'', sliderValue = ''90'', sliderMin = 0, sliderMax = 180,
                     inputValue = t, valueText = ''90'' @ [degree]\<rparr>"
  have c: "card_at (typed 2 t demo) 2 = Some (?card t)" for t
    by code_simp
  have p: "parseInt ''45'' = Num 45" "parseInt ''200'' = Num 200" "parseInt ''-1'' = Num (- 1)"
    "parseInt ''abc'' = NaN"
    by code_simp+
  have a: "array_get (servoAngles (typed 2 ''45'' demo)) 0 = Num 90"
    by code_simp
  show ?thesis
    using updateFromInput_range [OF c, of "''45''"] updateFromInput_range [OF c, of "''200''"]
      updateFromInput_range [OF c, of "''-1''"] updateFromInput_range [OF c, of "''abc''"] a
    by (auto simp: p valid_angle_def simp del: number_text.simps)
qed

text \<open>
  As stated, C2 fails for a value that is not an integer numeral. The number box of joint 2
  holds \<open>180.5\<close>, a value above 180: the update is accepted and stores 180. It holds
  \<open>-0.5\<close>, a value below 0: the update is accepted and stores 0. It holds \<open>1e2\<close>, the
  value 100, or \<open>12.7\<close>: the update is accepted and stores 1, or 12, not the value.
\<close>

theorem updateFromInput_truncates:
  "parseInt ''180.5'' = Num 180
   \<and> angles_after (updateFromInput 2 (typed 2 ''180.5'' demo)) =
       [Num 90, Num 180, Num 90, Num 90, Num 90]
   \<and> parseInt ''-0.5'' = Num 0
   \<and> angles_after (updateFromInput 2 (typed 2 ''-0.5'' demo)) =
       [Num 90, Num 0, Num 90, Num 90, Num 90]
   \<and> parseInt ''1e2'' = Num 1
   \<and> angles_after (updateFromInput 2 (typed 2 ''1e2'' demo)) =
       [Num 90, Num 1, Num 90, Num 90, Num 90]
   \<and> parseInt ''12.7'' = Num 12
   \<and> angles_after (updateFromInput 2 (typed 2 ''12.7'' demo)) =
       [Num 90, Num 12, Num 90, Num 90, Num 90]"
  by code_simp

section \<open>The lines of a chunk\<close>

lemma trim_blank: "(trim l \<noteq> []) = (\<not> blank l)"
proof (cases "dropWhile is_space l = []")
  case True
  then have "\<forall>x\<in>set l. is_space x"
    by (simp add: dropWhile_eq_Nil_conv)
  moreover have "trim l = []"
    unfolding trim_def True by simp
  ultimately show ?thesis
    by (simp add: blank_def list_all_iff)
next
  case False
  then have "\<not> is_space (hd (dropWhile is_space l))"
    by (rule hd_dropWhile)
  moreover from False have "hd (dropWhile is_space l) \<in> set (dropWhile is_space l)"
    by simp
  ultimately have "\<not> (\<forall>x\<in>set (dropWhile is_space l). is_space x)"
    by blast
  moreover from False have "\<not> (\<forall>x\<in>set l. is_space x)"
    by (simp add: dropWhile_eq_Nil_conv)
  ultimately show ?thesis
    by (simp add: trim_def blank_def list_all_iff dropWhile_eq_Nil_conv)
qed

lemma chunk_lines_blank: "chunk_lines chunk = filter (\<lambda>l. \<not> blank l) (split_lines chunk '''')"
  by (simp add: chunk_lines_def trim_blank)

lemma appendSerialLog_fold:
  "serialLog (foldl (\<lambda>t line. appendSerialLog clock line t) s ls) =
     map_option (\<lambda>old. old @ concat (map (log_entry (clock (now s))) ls)) (serialLog s)
   \<and> now (foldl (\<lambda>t line. appendSerialLog clock line t) s ls) = now s
   \<and> connected (foldl (\<lambda>t line. appendSerialLog clock line t) s ls) = connected s"
proof (induction ls arbitrary: s)
  case Nil
  then show ?case by (simp add: option.map_ident)
next
  case (Cons l ls)
  have "now (appendSerialLog clock l s) = now s"
    "connected (appendSerialLog clock l s) = connected s"
    "serialLog (appendSerialLog clock l s) =
       map_option (\<lambda>old. old @ log_entry (clock (now s)) l) (serialLog s)"
    by (simp_all add: appendSerialLog_def log_entry_def split: option.split)
  with Cons.IH [of "appendSerialLog clock l s"] show ?case
    by (simp add: option.map_comp comp_def)
qed

lemma serialLog_end_task [simp]: "serialLog (end_task k s) = serialLog s"
  by (simp add: end_task_def)

lemma chunk_lines_empty: "chunk_lines '''' = []"
  by (simp add: chunk_lines_def trim_def)

lemma read_chunk_log:
  "serialLog (read_settled clock k (Chunk chunk) s) =
     map_option (\<lambda>old. old @ concat (map (log_entry (clock (now s))) (chunk_lines chunk)))
       (serialLog s)"
  by (cases "chunk = []")
     (simp_all add: read_settled_def Let_def appendSerialLog_fold chunk_lines_empty option.map_ident)

text \<open>
  C6, as the code has it. For every chunk the loop splits the text at \<open>\n\<close> and \<open>\r\n\<close>,
  drops the lines that are empty or hold white space only, and passes each remaining
  line, untrimmed and in order, to \<^verbatim>\<open>appendSerialLog\<close>, which appends it to the log
  element (when the page has one) behind the time of the call. The chunk
  \<open>HELLO\r\nOK\n\<close> gives exactly the two lines \<open>HELLO\<close> and \<open>OK\<close>.
\<close>

theorem chunk_forwarded:
  "chunk_lines chunk = filter (\<lambda>l. \<not> blank l) (split_lines chunk '''')
   \<and> serialLog (read_settled clock k (Chunk chunk) s) =
       map_option (\<lambda>old. old @ concat (map (log_entry (clock (now s))) (chunk_lines chunk)))
         (serialLog s)
   \<and> chunk_lines (''HELLO'' @ [CHR 0x0D, newline] @ ''OK'' @ [newline]) = [''HELLO'', ''OK'']"
proof (intro conjI)
  show "chunk_lines (''HELLO'' @ [CHR 0x0D, newline] @ ''OK'' @ [newline]) = [''HELLO'', ''OK'']"
    by code_simp
qed (rule chunk_lines_blank, rule read_chunk_log)

text \<open>
  As stated, C6 fails for a line of white space: of the chunk \<open>" \nOK\n"\<close> the
  line \<open>" "\<close> is not empty, yet it is dropped.
\<close>

theorem chunk_blank_line_dropped:
  "spec_chunk_lines ('' '' @ [newline] @ ''OK'' @ [newline]) = ['' '', ''OK'']
   \<and> chunk_lines ('' '' @ [newline] @ ''OK'' @ [newline]) = [''OK'']"
  by code_simp

section \<open>What each operation leaves alone\<close>

lemma connect_failed_frame [simp]:
  "numServos (connect_failed msg s) = numServos s"
  "port (connect_failed msg s) = port s"
  "connected (connect_failed msg s) = connected s"
  "servoAngles (connect_failed msg s) = servoAngles s"
  "lastCommand (connect_failed msg s) = lastCommand s"
  "sending (connect_failed msg s) = sending s"
  "reader (connect_failed msg s) = reader s"
  "readableStreamClosed (connect_failed msg s) = readableStreamClosed s"
  "cards (connect_failed msg s) = cards s"
  "connectBtn (connect_failed msg s) = connectBtn s"
  "sendBtnDisabled (connect_failed msg s) = sendBtnDisabled s"
  "statusDot (connect_failed msg s) = statusDot s"
  "statusText (connect_failed msg s) = statusText s"
  "currentState (connect_failed msg s) = currentState s"
  "serialLog (connect_failed msg s) = serialLog s"
  "hasUpdateSystemStateUI (connect_failed msg s) = hasUpdateSystemStateUI s"
  "hasSetConnectionStatus (connect_failed msg s) = hasSetConnectionStatus s"
  "serialSupported (connect_failed msg s) = serialSupported s"
  "uiCalls (connect_failed msg s) = uiCalls s"
  "transport (connect_failed msg s) = transport s"
  "pendingRequests (connect_failed msg s) = pendingRequests s"
  "pendingOpens (connect_failed msg s) = pendingOpens s"
  "pendingWrites (connect_failed msg s) = pendingWrites s"
  "timers (connect_failed msg s) = timers s"
  "readTasks (connect_failed msg s) = readTasks s"
  "now (connect_failed msg s) = now s"
  by (simp_all add: connect_failed_def)

lemma startReading_frame [simp]:
  "numServos (startReading r s) = numServos s"
  "port (startReading r s) = port s"
  "connected (startReading r s) = connected s"
  "servoAngles (startReading r s) = servoAngles s"
  "lastCommand (startReading r s) = lastCommand s"
  "sending (startReading r s) = sending s"
  "cards (startReading r s) = cards s"
  "connectBtn (startReading r s) = connectBtn s"
  "sendBtnDisabled (startReading r s) = sendBtnDisabled s"
  "statusDot (startReading r s) = statusDot s"
  "statusText (startReading r s) = statusText s"
  "currentState (startReading r s) = currentState s"
  "serialLog (startReading r s) = serialLog s"
  "hasUpdateSystemStateUI (startReading r s) = hasUpdateSystemStateUI s"
  "hasSetConnectionStatus (startReading r s) = hasSetConnectionStatus s"
  "serialSupported (startReading r s) = serialSupported s"
  "alerts (startReading r s) = alerts s"
  "uiCalls (startReading r s) = uiCalls s"
  "pendingRequests (startReading r s) = pendingRequests s"
  "pendingOpens (startReading r s) = pendingOpens s"
  "pendingWrites (startReading r s) = pendingWrites s"
  "timers (startReading r s) = timers s"
  "now (startReading r s) = now s"
  by (simp_all add: startReading_def Let_def split: option.split read_start.split)

lemma connect_call_frame [simp]:
  "numServos (connect_call s) = numServos s"
  "port (connect_call s) = port s"
  "connected (connect_call s) = connected s"
  "servoAngles (connect_call s) = servoAngles s"
  "lastCommand (connect_call s) = lastCommand s"
  "sending (connect_call s) = sending s"
  "reader (connect_call s) = reader s"
  "readableStreamClosed (connect_call s) = readableStreamClosed s"
  "cards (connect_call s) = cards s"
  "connectBtn (connect_call s) = connectBtn s"
  "sendBtnDisabled (connect_call s) = sendBtnDisabled s"
  "statusDot (connect_call s) = statusDot s"
  "statusText (connect_call s) = statusText s"
  "currentState (connect_call s) = currentState s"
  "serialLog (connect_call s) = serialLog s"
  "hasUpdateSystemStateUI (connect_call s) = hasUpdateSystemStateUI s"
  "hasSetConnectionStatus (connect_call s) = hasSetConnectionStatus s"
  "serialSupported (connect_call s) = serialSupported s"
  "alerts (connect_call s) = alerts s"
  "console (connect_call s) = console s"
  "uiCalls (connect_call s) = uiCalls s"
  "transport (connect_call s) = transport s"
  "pendingOpens (connect_call s) = pendingOpens s"
  "pendingWrites (connect_call s) = pendingWrites s"
  "timers (connect_call s) = timers s"
  "readTasks (connect_call s) = readTasks s"
  "now (connect_call s) = now s"
  by (simp_all add: connect_call_def)

lemma port_settled_frame [simp]:
  "numServos (port_settled r s) = numServos s"
  "connected (port_settled r s) = connected s"
  "servoAngles (port_settled r s) = servoAngles s"
  "lastCommand (port_settled r s) = lastCommand s"
  "sending (port_settled r s) = sending s"
  "reader (port_settled r s) = reader s"
  "readableStreamClosed (port_settled r s) = readableStreamClosed s"
  "cards (port_settled r s) = cards s"
  "connectBtn (port_settled r s) = connectBtn s"
  "sendBtnDisabled (port_settled r s) = sendBtnDisabled s"
  "statusDot (port_settled r s) = statusDot s"
  "statusText (port_settled r s) = statusText s"
  "currentState (port_settled r s) = currentState s"
  "serialLog (port_settled r s) = serialLog s"
  "hasUpdateSystemStateUI (port_settled r s) = hasUpdateSystemStateUI s"
  "hasSetConnectionStatus (port_settled r s) = hasSetConnectionStatus s"
  "serialSupported (port_settled r s) = serialSupported s"
  "uiCalls (port_settled r s) = uiCalls s"
  "pendingWrites (port_settled r s) = pendingWrites s"
  "timers (port_settled r s) = timers s"
  "readTasks (port_settled r s) = readTasks s"
  "now (port_settled r s) = now s"
  by (simp_all add: port_settled_def Let_def split: port_request.split)

lemma open_settled_frame [simp]:
  "numServos (open_settled r s) = numServos s"
  "port (open_settled r s) = port s"
  "servoAngles (open_settled r s) = servoAngles s"
  "sending (open_settled r s) = sending s"
  "cards (open_settled r s) = cards s"
  "serialLog (open_settled r s) = serialLog s"
  "hasUpdateSystemStateUI (open_settled r s) = hasUpdateSystemStateUI s"
  "hasSetConnectionStatus (open_settled r s) = hasSetConnectionStatus s"
  "serialSupported (open_settled r s) = serialSupported s"
  "pendingRequests (open_settled r s) = pendingRequests s"
  "pendingWrites (open_settled r s) = pendingWrites s"
  "timers (open_settled r s) = timers s"
  "now (open_settled r s) = now s"
  by (simp_all add: open_settled_def Let_def split: open_result.split)

lemma disconnect_frame [simp]:
  "numServos (disconnect td s) = numServos s"
  "servoAngles (disconnect td s) = servoAngles s"
  "sending (disconnect td s) = sending s"
  "reader (disconnect td s) = reader s"
  "readableStreamClosed (disconnect td s) = readableStreamClosed s"
  "cards (disconnect td s) = cards s"
  "serialLog (disconnect td s) = serialLog s"
  "hasUpdateSystemStateUI (disconnect td s) = hasUpdateSystemStateUI s"
  "hasSetConnectionStatus (disconnect td s) = hasSetConnectionStatus s"
  "serialSupported (disconnect td s) = serialSupported s"
  "alerts (disconnect td s) = alerts s"
  "pendingRequests (disconnect td s) = pendingRequests s"
  "pendingOpens (disconnect td s) = pendingOpens s"
  "pendingWrites (disconnect td s) = pendingWrites s"
  "timers (disconnect td s) = timers s"
  "readTasks (disconnect td s) = readTasks s"
  "now (disconnect td s) = now s"
  by (simp_all add: disconnect_def Let_def split: option.split)

lemma toggleConnection_frame [simp]:
  "numServos (toggleConnection td s) = numServos s"
  "servoAngles (toggleConnection td s) = servoAngles s"
  "sending (toggleConnection td s) = sending s"
  "reader (toggleConnection td s) = reader s"
  "readableStreamClosed (toggleConnection td s) = readableStreamClosed s"
  "cards (toggleConnection td s) = cards s"
  "serialLog (toggleConnection td s) = serialLog s"
  "hasUpdateSystemStateUI (toggleConnection td s) = hasUpdateSystemStateUI s"
  "hasSetConnectionStatus (toggleConnection td s) = hasSetConnectionStatus s"
  "serialSupported (toggleConnection td s) = serialSupported s"
  "alerts (toggleConnection td s) = alerts s"
  "pendingOpens (toggleConnection td s) = pendingOpens s"
  "pendingWrites (toggleConnection td s) = pendingWrites s"
  "timers (toggleConnection td s) = timers s"
  "readTasks (toggleConnection td s) = readTasks s"
  "now (toggleConnection td s) = now s"
  by (simp_all add: toggleConnection_def)

lemma send_failed_frame [simp]:
  "numServos (send_failed msg s) = numServos s"
  "port (send_failed msg s) = port s"
  "connected (send_failed msg s) = connected s"
  "servoAngles (send_failed msg s) = servoAngles s"
  "lastCommand (send_failed msg s) = lastCommand s"
  "sending (send_failed msg s) = sending s"
  "reader (send_failed msg s) = reader s"
  "readableStreamClosed (send_failed msg s) = readableStreamClosed s"
  "cards (send_failed msg s) = cards s"
  "connectBtn (send_failed msg s) = connectBtn s"
  "sendBtnDisabled (send_failed msg s) = sendBtnDisabled s"
  "statusDot (send_failed msg s) = statusDot s"
  "statusText (send_failed msg s) = statusText s"
  "currentState (send_failed msg s) = currentState s"
  "serialLog (send_failed msg s) = serialLog s"
  "hasUpdateSystemStateUI (send_failed msg s) = hasUpdateSystemStateUI s"
  "hasSetConnectionStatus (send_failed msg s) = hasSetConnectionStatus s"
  "serialSupported (send_failed msg s) = serialSupported s"
  "uiCalls (send_failed msg s) = uiCalls s"
  "transport (send_failed msg s) = transport s"
  "pendingRequests (send_failed msg s) = pendingRequests s"
  "pendingOpens (send_failed msg s) = pendingOpens s"
  "pendingWrites (send_failed msg s) = pendingWrites s"
  "timers (send_failed msg s) = timers s"
  "readTasks (send_failed msg s) = readTasks s"
  "now (send_failed msg s) = now s"
  by (simp_all add: send_failed_def)

lemma start_cooldown_frame [simp]:
  "numServos (start_cooldown s) = numServos s"
  "port (start_cooldown s) = port s"
  "connected (start_cooldown s) = connected s"
  "servoAngles (start_cooldown s) = servoAngles s"
  "lastCommand (start_cooldown s) = lastCommand s"
  "sending (start_cooldown s) = sending s"
  "reader (start_cooldown s) = reader s"
  "readableStreamClosed (start_cooldown s) = readableStreamClosed s"
  "cards (start_cooldown s) = cards s"
  "connectBtn (start_cooldown s) = connectBtn s"
  "sendBtnDisabled (start_cooldown s) = sendBtnDisabled s"
  "statusDot (start_cooldown s) = statusDot s"
  "statusText (start_cooldown s) = statusText s"
  "currentState (start_cooldown s) = currentState s"
  "serialLog (start_cooldown s) = serialLog s"
  "hasUpdateSystemStateUI (start_cooldown s) = hasUpdateSystemStateUI s"
  "hasSetConnectionStatus (start_cooldown s) = hasSetConnectionStatus s"
  "serialSupported (start_cooldown s) = serialSupported s"
  "alerts (start_cooldown s) = alerts s"
  "console (start_cooldown s) = console s"
  "uiCalls (start_cooldown s) = uiCalls s"
  "transport (start_cooldown s) = transport s"
  "pendingRequests (start_cooldown s) = pendingRequests s"
  "pendingOpens (start_cooldown s) = pendingOpens s"
  "pendingWrites (start_cooldown s) = pendingWrites s"
  "readTasks (start_cooldown s) = readTasks s"
  "now (start_cooldown s) = now s"
  by (simp_all add: start_cooldown_def)

lemma executePosition_frame [simp]:
  "numServos (executePosition g s) = numServos s"
  "port (executePosition g s) = port s"
  "connected (executePosition g s) = connected s"
  "servoAngles (executePosition g s) = servoAngles s"
  "lastCommand (executePosition g s) = lastCommand s"
  "reader (executePosition g s) = reader s"
  "readableStreamClosed (executePosition g s) = readableStreamClosed s"
  "cards (executePosition g s) = cards s"
  "connectBtn (executePosition g s) = connectBtn s"
  "statusDot (executePosition g s) = statusDot s"
  "statusText (executePosition g s) = statusText s"
  "currentState (executePosition g s) = currentState s"
  "serialLog (executePosition g s) = serialLog s"
  "hasUpdateSystemStateUI (executePosition g s) = hasUpdateSystemStateUI s"
  "hasSetConnectionStatus (executePosition g s) = hasSetConnectionStatus s"
  "serialSupported (executePosition g s) = serialSupported s"
  "uiCalls (executePosition g s) = uiCalls s"
  "pendingRequests (executePosition g s) = pendingRequests s"
  "pendingOpens (executePosition g s) = pendingOpens s"
  "readTasks (executePosition g s) = readTasks s"
  "now (executePosition g s) = now s"
  by (simp_all add: executePosition_def Let_def split: option.split writer_env.split)

lemma write_settled_frame [simp]:
  "numServos (write_settled k r s) = numServos s"
  "port (write_settled k r s) = port s"
  "connected (write_settled k r s) = connected s"
  "servoAngles (write_settled k r s) = servoAngles s"
  "sending (write_settled k r s) = sending s"
  "reader (write_settled k r s) = reader s"
  "readableStreamClosed (write_settled k r s) = readableStreamClosed s"
  "cards (write_settled k r s) = cards s"
  "connectBtn (write_settled k r s) = connectBtn s"
  "sendBtnDisabled (write_settled k r s) = sendBtnDisabled s"
  "statusDot (write_settled k r s) = statusDot s"
  "statusText (write_settled k r s) = statusText s"
  "serialLog (write_settled k r s) = serialLog s"
  "hasUpdateSystemStateUI (write_settled k r s) = hasUpdateSystemStateUI s"
  "hasSetConnectionStatus (write_settled k r s) = hasSetConnectionStatus s"
  "serialSupported (write_settled k r s) = serialSupported s"
  "pendingRequests (write_settled k r s) = pendingRequests s"
  "pendingOpens (write_settled k r s) = pendingOpens s"
  "readTasks (write_settled k r s) = readTasks s"
  "now (write_settled k r s) = now s"
  by (simp_all add: write_settled_def Let_def split: prod.split write_result.split)

lemma cooldown_callback_frame [simp]:
  "numServos (cooldown_callback s) = numServos s"
  "port (cooldown_callback s) = port s"
  "connected (cooldown_callback s) = connected s"
  "servoAngles (cooldown_callback s) = servoAngles s"
  "lastCommand (cooldown_callback s) = lastCommand s"
  "reader (cooldown_callback s) = reader s"
  "readableStreamClosed (cooldown_callback s) = readableStreamClosed s"
  "cards (cooldown_callback s) = cards s"
  "connectBtn (cooldown_callback s) = connectBtn s"
  "statusDot (cooldown_callback s) = statusDot s"
  "statusText (cooldown_callback s) = statusText s"
  "currentState (cooldown_callback s) = currentState s"
  "serialLog (cooldown_callback s) = serialLog s"
  "hasUpdateSystemStateUI (cooldown_callback s) = hasUpdateSystemStateUI s"
  "hasSetConnectionStatus (cooldown_callback s) = hasSetConnectionStatus s"
  "serialSupported (cooldown_callback s) = serialSupported s"
  "alerts (cooldown_callback s) = alerts s"
  "console (cooldown_callback s) = console s"
  "uiCalls (cooldown_callback s) = uiCalls s"
  "transport (cooldown_callback s) = transport s"
  "pendingRequests (cooldown_callback s) = pendingRequests s"
  "pendingOpens (cooldown_callback s) = pendingOpens s"
  "pendingWrites (cooldown_callback s) = pendingWrites s"
  "timers (cooldown_callback s) = timers s"
  "readTasks (cooldown_callback s) = readTasks s"
  "now (cooldown_callback s) = now s"
  by (simp_all add: cooldown_callback_def Let_def)

lemma appendSerialLog_frame [simp]:
  "numServos (appendSerialLog clock line s) = numServos s"
  "port (appendSerialLog clock line s) = port s"
  "connected (appendSerialLog clock line s) = connected s"
  "servoAngles (appendSerialLog clock line s) = servoAngles s"
  "lastCommand (appendSerialLog clock line s) = lastCommand s"
  "sending (appendSerialLog clock line s) = sending s"
  "reader (appendSerialLog clock line s) = reader s"
  "readableStreamClosed (appendSerialLog clock line s) = readableStreamClosed s"
  "cards (appendSerialLog clock line s) = cards s"
  "connectBtn (appendSerialLog clock line s) = connectBtn s"
  "sendBtnDisabled (appendSerialLog clock line s) = sendBtnDisabled s"
  "statusDot (appendSerialLog clock line s) = statusDot s"
  "statusText (appendSerialLog clock line s) = statusText s"
  "currentState (appendSerialLog clock line s) = currentState s"
  "hasUpdateSystemStateUI (appendSerialLog clock line s) = hasUpdateSystemStateUI s"
  "hasSetConnectionStatus (appendSerialLog clock line s) = hasSetConnectionStatus s"
  "serialSupported (appendSerialLog clock line s) = serialSupported s"
  "alerts (appendSerialLog clock line s) = alerts s"
  "console (appendSerialLog clock line s) = console s"
  "uiCalls (appendSerialLog clock line s) = uiCalls s"
  "transport (appendSerialLog clock line s) = transport s"
  "pendingRequests (appendSerialLog clock line s) = pendingRequests s"
  "pendingOpens (appendSerialLog clock line s) = pendingOpens s"
  "pendingWrites (appendSerialLog clock line s) = pendingWrites s"
  "timers (appendSerialLog clock line s) = timers s"
  "readTasks (appendSerialLog clock line s) = readTasks s"
  "now (appendSerialLog clock line s) = now s"
  by (simp_all add: appendSerialLog_def split: option.split)

lemma end_task_frame [simp]:
  "numServos (end_task k s) = numServos s"
  "port (end_task k s) = port s"
  "connected (end_task k s) = connected s"
  "servoAngles (end_task k s) = servoAngles s"
  "lastCommand (end_task k s) = lastCommand s"
  "sending (end_task k s) = sending s"
  "reader (end_task k s) = reader s"
  "readableStreamClosed (end_task k s) = readableStreamClosed s"
  "cards (end_task k s) = cards s"
  "connectBtn (end_task k s) = connectBtn s"
  "sendBtnDisabled (end_task k s) = sendBtnDisabled s"
  "statusDot (end_task k s) = statusDot s"
  "statusText (end_task k s) = statusText s"
  "currentState (end_task k s) = currentState s"
  "serialLog (end_task k s) = serialLog s"
  "hasUpdateSystemStateUI (end_task k s) = hasUpdateSystemStateUI s"
  "hasSetConnectionStatus (end_task k s) = hasSetConnectionStatus s"
  "serialSupported (end_task k s) = serialSupported s"
  "alerts (end_task k s) = alerts s"
  "console (end_task k s) = console s"
  "uiCalls (end_task k s) = uiCalls s"
  "transport (end_task k s) = transport s"
  "pendingRequests (end_task k s) = pendingRequests s"
  "pendingOpens (end_task k s) = pendingOpens s"
  "pendingWrites (end_task k s) = pendingWrites s"
  "timers (end_task k s) = timers s"
  "now (end_task k s) = now s"
  by (simp_all add: end_task_def)

lemma appendSerialLog_fold_frame:
  "numServos (foldl (\<lambda>t line. appendSerialLog clock line t) s ls) = numServos s"
  "servoAngles (foldl (\<lambda>t line. appendSerialLog clock line t) s ls) = servoAngles s"
  "cards (foldl (\<lambda>t line. appendSerialLog clock line t) s ls) = cards s"
  "sending (foldl (\<lambda>t line. appendSerialLog clock line t) s ls) = sending s"
  "pendingWrites (foldl (\<lambda>t line. appendSerialLog clock line t) s ls) = pendingWrites s"
  "timers (foldl (\<lambda>t line. appendSerialLog clock line t) s ls) = timers s"
  "port (foldl (\<lambda>t line. appendSerialLog clock line t) s ls) = port s"
  "lastCommand (foldl (\<lambda>t line. appendSerialLog clock line t) s ls) = lastCommand s"
  by (induction ls arbitrary: s) simp_all

lemma read_settled_frame [simp]:
  "numServos (read_settled clock k r s) = numServos s"
  "servoAngles (read_settled clock k r s) = servoAngles s"
  "cards (read_settled clock k r s) = cards s"
  "sending (read_settled clock k r s) = sending s"
  "pendingWrites (read_settled clock k r s) = pendingWrites s"
  "timers (read_settled clock k r s) = timers s"
  "port (read_settled clock k r s) = port s"
  "connected (read_settled clock k r s) = connected s"
  "lastCommand (read_settled clock k r s) = lastCommand s"
  by (simp_all add: read_settled_def Let_def appendSerialLog_fold_frame appendSerialLog_fold
        split: read_result.split)

lemma set_card_frame [simp]:
  "numServos (set_card j c s) = numServos s"
  "servoAngles (set_card j c s) = servoAngles s"
  "sending (set_card j c s) = sending s"
  "pendingWrites (set_card j c s) = pendingWrites s"
  "timers (set_card j c s) = timers s"
  "port (set_card j c s) = port s"
  "connected (set_card j c s) = connected s"
  "lastCommand (set_card j c s) = lastCommand s"
  "cards (set_card j c s) = (cards s)[j - 1 := c]"
  by (simp_all add: set_card_def)

lemma updateFromSlider_frame:
  assumes "updateFromSlider j s = Inr s'"
  shows "numServos s' = numServos s" and "sending s' = sending s"
    and "pendingWrites s' = pendingWrites s" and "timers s' = timers s"
    and "port s' = port s" and "connected s' = connected s" and "lastCommand s' = lastCommand s"
  using assms
  by (auto simp: updateFromSlider_def Let_def split: option.splits)

lemma updateFromInput_frame:
  assumes "updateFromInput j s = Inr s'"
  shows "numServos s' = numServos s" and "sending s' = sending s"
    and "pendingWrites s' = pendingWrites s" and "timers s' = timers s"
    and "port s' = port s" and "connected s' = connected s" and "lastCommand s' = lastCommand s"
  using assms
  by (auto simp: updateFromInput_def Let_def split: option.splits if_splits)

lemma reset_loop_frame:
  assumes "reset_loop is s = Inr s'"
  shows "numServos s' = numServos s \<and> sending s' = sending s
    \<and> pendingWrites s' = pendingWrites s \<and> timers s' = timers s
    \<and> port s' = port s \<and> connected s' = connected s \<and> lastCommand s' = lastCommand s
    \<and> length (cards s') = length (cards s)"
  using assms
proof (induction "is" arbitrary: s)
  case Nil
  then show ?case by simp
next
  case (Cons i rest)
  from Cons.prems obtain c where c: "card_at s i = Some c"
    by (auto split: option.splits)
  let ?t = "set_card i (c\<lparr>sliderValue := ''90'', inputValue := ''90'', valueText := ''90'' @ [degree]\<rparr>) s
               \<lparr>servoAngles := array_set (servoAngles s) (i - 1) (Num 90)\<rparr>"
  from Cons.prems c have "reset_loop rest ?t = Inr s'" by simp
  from Cons.IH [OF this] show ?case by simp
qed

section \<open>The shape of the controller is kept\<close>

lemma valid_90: "valid_angle (Num 90)"
  by (simp add: valid_angle_def)

lemma wf_start: "well_formed (KukaController n page)"
  by (simp add: well_formed_def KukaController_def init_def renderServoCards_eq checkWebSerialSupport_def
        list_all_iff valid_90 card_bounds_def createServoCard_def)

lemma list_all_update: "list_all P xs \<Longrightarrow> P x \<Longrightarrow> list_all P (xs[i := x])"
  using set_update_subset_insert [of xs i x] by (auto simp: list_all_iff)

lemma card_at_wf:
  assumes "well_formed s" and "card_at s j = Some c"
  shows "1 \<le> j" and "j \<le> numServos s" and "j - 1 < length (servoAngles s)"
    and "j - 1 < length (cards s)" and "card_bounds c" and "c = cards s ! (j - 1)"
  using assms
  by (auto simp: well_formed_def card_at_def list_all_length split: if_splits)

lemma wf_store:
  assumes well_formed: "well_formed s" and c: "card_at s j = Some c" and a: "valid_angle a"
    and b: "card_bounds c'"
  shows "well_formed (updateSystemState (set_card j c' (s\<lparr>servoAngles := array_set (servoAngles s) (j - 1) a\<rparr>)))"
  using well_formed a b card_at_wf(3) [OF well_formed c]
  by (simp add: well_formed_def array_set_def list_all_update)

lemma wf_set_card:
  assumes "well_formed s" and "card_bounds c'"
  shows "well_formed (set_card j c' s)"
  using assms by (simp add: well_formed_def list_all_update)

lemma card_at_set_card:
  assumes "card_at s j = Some c"
  shows "card_at (set_card j c' s) j = Some c'"
  using assms by (auto simp: card_at_def split: if_splits)

lemma wf_slide:
  assumes well_formed: "well_formed s" and f: "fire (Slide j v) s = Some s'"
  shows "well_formed s'"
proof -
  from f obtain c where c: "card_at s j = Some c"
    and v: "sliderMin c \<le> v" "v \<le> sliderMax c"
    and u: "updateFromSlider j (set_card j (c\<lparr>sliderValue := number_text (Num v)\<rparr>) s) = Inr s'"
    by (auto simp: to_option_def split: option.splits if_splits sum.splits)
  let ?c1 = "c\<lparr>sliderValue := number_text (Num v)\<rparr>"
  let ?s1 = "set_card j ?c1 s"
  from card_at_wf(5) [OF well_formed c] have b: "card_bounds c" .
  then have b1: "card_bounds ?c1" by (simp add: card_bounds_def)
  from b v have va: "valid_angle (Num v)" by (simp add: card_bounds_def valid_angle_def)
  have wf1: "well_formed ?s1" by (rule wf_set_card [OF well_formed b1])
  have c1: "card_at ?s1 j = Some ?c1" by (rule card_at_set_card [OF c])
  have b2: "card_bounds (?c1\<lparr>inputValue := number_text (Num v), valueText := number_text (Num v) @ [degree]\<rparr>)"
    using b by (simp add: card_bounds_def)
  from u c1 have "s' = updateSystemState (set_card j
        (?c1\<lparr>inputValue := number_text (Num v), valueText := number_text (Num v) @ [degree]\<rparr>)
        (?s1\<lparr>servoAngles := array_set (servoAngles ?s1) (j - 1) (Num v)\<rparr>))"
    by (simp add: updateFromSlider_def Let_def parseInt_number_text del: number_text.simps)
  with wf_store [OF wf1 c1 va b2] show ?thesis by simp
qed

lemma wf_type:
  assumes well_formed: "well_formed s" and f: "fire (Type j t) s = Some s'"
  shows "well_formed s'"
proof -
  from f obtain c where c: "card_at s j = Some c"
    and u: "updateFromInput j (set_card j (c\<lparr>inputValue := t\<rparr>) s) = Inr s'"
    by (auto simp: to_option_def split: option.splits if_splits sum.splits)
  let ?c1 = "c\<lparr>inputValue := t\<rparr>"
  let ?s1 = "set_card j ?c1 s"
  from card_at_wf(5) [OF well_formed c] have b1: "card_bounds ?c1" by (simp add: card_bounds_def)
  have wf1: "well_formed ?s1" by (rule wf_set_card [OF well_formed b1])
  have c1: "card_at ?s1 j = Some ?c1" by (rule card_at_set_card [OF c])
  show ?thesis
  proof (cases "valid_angle (parseInt t)")
    case True
    have b2: "card_bounds (?c1\<lparr>sliderValue := number_text (parseInt t),
                valueText := number_text (parseInt t) @ [degree]\<rparr>)"
      using b1 by (simp add: card_bounds_def)
    from u c1 True have "s' = updateSystemState (set_card j
        (?c1\<lparr>sliderValue := number_text (parseInt t), valueText := number_text (parseInt t) @ [degree]\<rparr>)
        (?s1\<lparr>servoAngles := array_set (servoAngles ?s1) (j - 1) (parseInt t)\<rparr>))"
      by (simp add: updateFromInput_def Let_def in_range_iff)
    with wf_store [OF wf1 c1 True b2] show ?thesis by simp
  next
    case False
    with u c1 have "s' = ?s1"
      by (simp add: updateFromInput_def Let_def in_range_iff)
    with wf1 show ?thesis by simp
  qed
qed

lemma wf_reset_loop:
  assumes "well_formed s" and "reset_loop is s = Inr s'"
  shows "well_formed s'"
  using assms
proof (induction "is" arbitrary: s)
  case Nil
  then show ?case by simp
next
  case (Cons i rest)
  from Cons.prems obtain c where c: "card_at s i = Some c"
    by (auto split: option.splits)
  let ?c' = "c\<lparr>sliderValue := ''90'', inputValue := ''90'', valueText := ''90'' @ [degree]\<rparr>"
  let ?t = "set_card i ?c' s\<lparr>servoAngles := array_set (servoAngles s) (i - 1) (Num 90)\<rparr>"
  from card_at_wf(5) [OF Cons.prems(1) c] have b: "card_bounds ?c'" by (simp add: card_bounds_def)
  have "well_formed ?t"
    using Cons.prems(1) b card_at_wf(3) [OF Cons.prems(1) c]
    by (simp add: well_formed_def array_set_def list_all_update valid_90)
  moreover from Cons.prems c have "reset_loop rest ?t = Inr s'" by simp
  ultimately show ?case by (rule Cons.IH)
qed

lemma wf_frame:
  assumes "well_formed s" and "servoAngles s' = servoAngles s" and "cards s' = cards s"
    and "numServos s' = numServos s"
  shows "well_formed s'"
  using assms by (simp add: well_formed_def)

lemma wf_reset:
  assumes well_formed: "well_formed s" and f: "resetAllServos g s = Inr s'"
  shows "well_formed s'"
proof -
  from f obtain s1 where l: "reset_loop [1..<numServos s + 1] s = Inr s1"
    by (auto simp: resetAllServos_def split: sum.splits)
  have "well_formed s1" by (rule wf_reset_loop [OF well_formed l])
  moreover from f l have "servoAngles s' = servoAngles s1 \<and> cards s' = cards s1
      \<and> numServos s' = numServos s1"
    by (auto simp: resetAllServos_def Let_def)
  ultimately show ?thesis by (auto intro: wf_frame)
qed

lemma wf_fire:
  assumes well_formed: "well_formed s" and f: "fire e s = Some s'"
  shows "well_formed s'"
proof (cases e)
  case (Slide j v)
  with well_formed f show ?thesis by (auto intro: wf_slide)
next
  case (Type j t)
  with well_formed f show ?thesis by (auto intro: wf_type)
next
  case (ClickReset g)
  with well_formed f show ?thesis by (auto simp: to_option_def intro: wf_reset split: sum.splits)
next
  case CooldownElapsed
  with f obtain due rest where "timers s = due # rest"
    and "s' = cooldown_callback (s\<lparr>timers := rest\<rparr>)"
    by (auto split: list.splits if_splits)
  with well_formed show ?thesis by (auto intro: wf_frame [OF well_formed])
qed (use well_formed f in \<open>auto intro!: wf_frame [OF well_formed] split: if_splits\<close>)

lemma reachable_wf: "reachable s \<Longrightarrow> well_formed s"
  by (induction rule: reachable.induct) (auto intro: wf_start wf_fire)

section \<open>The discipline of sending is kept\<close>

lemma send_inv_start: "send_inv (KukaController n page)"
  by (simp add: send_inv_def KukaController_def init_fields)

lemma send_inv_frame:
  assumes "send_inv s" and "pendingWrites s' = pendingWrites s" and "timers s' = timers s"
    and "sending s' = sending s"
  shows "send_inv s'"
  using assms by (simp add: send_inv_def)

lemma send_inv_executePosition: "send_inv s \<Longrightarrow> send_inv (executePosition g s)"
  by (auto simp: send_inv_def executePosition_def Let_def start_cooldown_def send_failed_def
        split: option.splits writer_env.splits)

lemma send_inv_write_settled:
  assumes "send_inv s" and "k < length (pendingWrites s)"
  shows "send_inv (write_settled k r s)"
proof -
  from assms have none: "timers s = []"
    by (cases "timers s") (auto simp: send_inv_def)
  from assms have one: "length (pendingWrites s) = 1" and k: "k = 0"
    by (auto simp: send_inv_def)
  from assms one have busy: "sending s"
    by (auto simp: send_inv_def)
  have "pendingWrites (write_settled k r s) = take k (pendingWrites s) @ drop (Suc k) (pendingWrites s)"
    "timers (write_settled k r s) = timers s @ [now s + 300]"
    by (simp_all add: write_settled_def Let_def start_cooldown_def send_failed_def
          split: prod.split write_result.split)
  with one none busy k show ?thesis
    by (simp add: send_inv_def)
qed

lemma send_inv_reset:
  assumes inv: "send_inv s" and f: "resetAllServos g s = Inr s'"
  shows "send_inv s'"
proof -
  from f obtain s1 where l: "reset_loop [1..<numServos s + 1] s = Inr s1"
    by (auto simp: resetAllServos_def split: sum.splits)
  let ?s2 = "updateSystemState s1"
  let ?s3 = "?s2\<lparr>console := console ?s2 @ [''[SYSTEM] All joints reset to home position'']\<rparr>"
  from reset_loop_frame [OF l] inv have "send_inv ?s3"
    by (simp add: send_inv_def)
  moreover from f l have "s' = (if connected ?s3 then executePosition g ?s3 else ?s3)"
    by (simp add: resetAllServos_def Let_def)
  ultimately show ?thesis
    by (simp add: send_inv_executePosition)
qed

lemma send_inv_fire:
  assumes inv: "send_inv s" and f: "fire e s = Some s'"
  shows "send_inv s'"
proof (cases e)
  case (Slide j v)
  with f obtain t where "updateFromSlider j t = Inr s'"
    and "pendingWrites t = pendingWrites s" "timers t = timers s" "sending t = sending s"
    by (auto simp: to_option_def split: option.splits if_splits sum.splits)
  with inv updateFromSlider_frame [of j t s'] show ?thesis
    by (simp add: send_inv_def)
next
  case (Type j tx)
  with f obtain t where "updateFromInput j t = Inr s'"
    and "pendingWrites t = pendingWrites s" "timers t = timers s" "sending t = sending s"
    by (auto simp: to_option_def split: option.splits if_splits sum.splits)
  with inv updateFromInput_frame [of j t s'] show ?thesis
    by (simp add: send_inv_def)
next
  case (ClickSend g)
  with inv f show ?thesis by (auto intro: send_inv_executePosition)
next
  case (WriteSettled k r)
  with inv f show ?thesis by (auto intro: send_inv_write_settled split: if_splits)
next
  case CooldownElapsed
  with inv f show ?thesis
    by (auto simp: send_inv_def split: list.splits if_splits)
next
  case (ClickReset g)
  with inv f show ?thesis
    by (auto simp: to_option_def intro: send_inv_reset split: sum.splits)
qed (use inv f in \<open>auto intro!: send_inv_frame [OF inv] split: if_splits\<close>)

lemma reachable_send_inv: "reachable s \<Longrightarrow> send_inv s"
  by (induction rule: reachable.induct) (auto intro: send_inv_start send_inv_fire)

lemma run_reachable: "reachable s \<Longrightarrow> run es s = Some s' \<Longrightarrow> reachable s'"
proof (induction es arbitrary: s)
  case Nil
  then show ?case by simp
next
  case (Cons e es)
  from Cons.prems(2) obtain t where t: "fire e s = Some t" and r: "run es t = Some s'"
    by (auto split: option.splits)
  from Cons.prems(1) t have "reachable t" by (rule reachable.step)
  from Cons.IH [OF this r] show ?case .
qed

lemma reachable_demo: "reachable demo"
  unfolding demo_def by (rule reachable.start)

lemma run_demo:
  assumes "run es demo \<noteq> None"
  shows "reachable (the (run es demo))"
  using assms run_reachable [OF reachable_demo, of es] by auto

lemma only_timer_clears:
  assumes busy: "sending s" and f: "fire e s = Some s'" and idle: "\<not> sending s'"
  shows "e = CooldownElapsed \<and> (\<exists>due rest. timers s = due # rest \<and> due \<le> now s)"
proof (cases e)
  case (Slide j v)
  with f obtain t where "updateFromSlider j t = Inr s'" "sending t = sending s"
    by (auto simp: to_option_def split: option.splits if_splits sum.splits)
  with busy idle updateFromSlider_frame(2) [of j t s'] show ?thesis by simp
next
  case (Type j tx)
  with f obtain t where "updateFromInput j t = Inr s'" "sending t = sending s"
    by (auto simp: to_option_def split: option.splits if_splits sum.splits)
  with busy idle updateFromInput_frame(2) [of j t s'] show ?thesis by simp
next
  case (ClickSend g)
  with busy f idle show ?thesis
    by (auto simp: executePosition_def split: option.splits if_splits)
next
  case CooldownElapsed
  with f show ?thesis by (auto split: list.splits if_splits)
next
  case (ClickReset g)
  with f obtain s1 where l: "reset_loop [1..<numServos s + 1] s = Inr s1"
    by (auto simp: resetAllServos_def to_option_def split: sum.splits)
  let ?s2 = "updateSystemState s1"
  let ?s3 = "?s2\<lparr>console := console ?s2 @ [''[SYSTEM] All joints reset to home position'']\<rparr>"
  from reset_loop_frame [OF l] busy have b3: "sending ?s3" by simp
  from f l ClickReset have "s' = (if connected ?s3 then executePosition g ?s3 else ?s3)"
    by (simp add: resetAllServos_def Let_def to_option_def)
  with b3 idle show ?thesis
    by (auto simp: executePosition_def split: option.splits if_splits)
qed (use busy f idle in \<open>auto split: if_splits\<close>)

section \<open>Evaluating the examples\<close>

lemmas eval =
  KukaController_def init_def renderServoCards_eq checkWebSerialSupport_def createServoCard_def
  updateSystemState_def positions_text_def trim_def is_space_def
  card_at_def set_card_def array_set_def array_get_def
  toggleConnection_def connect_call_def port_settled_def open_settled_def startReading_def
  connect_failed_def disconnect_def connect_def
  executePosition_def write_settled_def cooldown_callback_def start_cooldown_def send_failed_def
  build_command_def command_loop.simps decimal.simps digit_char_def
  to_option_def Let_def newline_def degree_def upt_conv_Cons

lemmas eval_input =
  updateFromInput_def updateFromSlider_def
  parseInt_def strip_sign_def strip_prefix_def digits_value_def is_digit_def digit_value_def
  js_ge_def js_le_def

section \<open>The gate of \<^verbatim>\<open>executePosition\<close>\<close>

lemma send_rejected:
  "\<not> connected s \<or> port s = None \<or> sending s \<Longrightarrow> executePosition g s = s"
  by (auto simp: executePosition_def split: option.splits)

lemma send_accepted:
  assumes "connected s" and "port s = Some p" and "\<not> sending s"
  shows "sending (executePosition WriterOk s)"
    and "transport (executePosition WriterOk s) =
           transport s @ [GetWriter p, Write p (build_command (numServos s) (servoAngles s))]"
    and "pendingWrites (executePosition WriterOk s) =
           pendingWrites s @ [(p, build_command (numServos s) (servoAngles s))]"
    and "sending (executePosition (GetWriterThrows msg) s)"
    and "timers (executePosition (GetWriterThrows msg) s) = timers s @ [now s + 300]"
    and "transport (executePosition (GetWriterThrows msg) s) = transport s"
  using assms
  by (simp_all add: executePosition_def Let_def start_cooldown_def send_failed_def)

lemma settle_starts_cooldown:
  "timers (write_settled k r s) = timers s @ [now s + 300]"
  "sending (write_settled k r s) = sending s"
  by (simp_all add: write_settled_def Let_def start_cooldown_def send_failed_def
        split: prod.split write_result.split)

lemma cooldown_end:
  assumes inv: "send_inv s" and f: "fire CooldownElapsed s = Some s'"
  shows "\<not> sending s' \<and> pendingWrites s' = [] \<and> timers s' = []"
proof -
  from f obtain due rest where t: "timers s = due # rest"
    and s': "s' = cooldown_callback (s\<lparr>timers := rest\<rparr>)"
    by (auto split: list.splits if_splits)
  from inv t have "rest = []" and "pendingWrites s = []"
    by (auto simp: send_inv_def)
  with s' show ?thesis
    by (simp add: cooldown_callback_def Let_def)
qed

text \<open>
  C4. A send is gated by the busy flag. Called while not connected, without a port or
  with the flag set, \<^verbatim>\<open>executePosition\<close> returns with the state as it was, so nothing is
  written. In every reachable state the sends that wait for their write and the cool-down
  timers number at most one together, and the flag is set while there is one. A write
  that settles, well or badly, and a writer that cannot be had set the timer 300 ms ahead
  and leave the flag set; no event but the timer clears the flag, and the timer fires no
  earlier than it is due. When the timer has fired nothing is outstanding and the flag is
  clear, and a send called on a connected controller with a clear flag is accepted: its
  command is written and it is the one outstanding send.
\<close>

theorem send_gated:
  "((\<not> connected s \<or> port s = None \<or> sending s) \<longrightarrow> executePosition g s = s)
   \<and> (reachable s \<longrightarrow>
        length (pendingWrites s) + length (timers s) \<le> 1
        \<and> (pendingWrites s \<noteq> [] \<or> timers s \<noteq> [] \<longrightarrow> sending s))
   \<and> timers (write_settled k r s) = timers s @ [now s + 300]
   \<and> sending (write_settled k r s) = sending s
   \<and> (connected s \<and> port s = Some p \<and> \<not> sending s \<longrightarrow>
        sending (executePosition (GetWriterThrows msg) s)
        \<and> timers (executePosition (GetWriterThrows msg) s) = timers s @ [now s + 300]
        \<and> transport (executePosition (GetWriterThrows msg) s) = transport s)
   \<and> (sending s \<and> fire e s = Some s' \<and> \<not> sending s' \<longrightarrow>
        e = CooldownElapsed \<and> (\<exists>due rest. timers s = due # rest \<and> due \<le> now s))
   \<and> (reachable s \<and> fire CooldownElapsed s = Some s' \<longrightarrow>
        \<not> sending s' \<and> pendingWrites s' = [] \<and> timers s' = [])
   \<and> (connected s \<and> port s = Some p \<and> \<not> sending s \<longrightarrow>
        sending (executePosition WriterOk s)
        \<and> transport (executePosition WriterOk s) =
            transport s @ [GetWriter p, Write p (build_command (numServos s) (servoAngles s))]
        \<and> pendingWrites (executePosition WriterOk s) =
            pendingWrites s @ [(p, build_command (numServos s) (servoAngles s))])"
proof (intro conjI impI)
  assume "\<not> connected s \<or> port s = None \<or> sending s"
  then show "executePosition g s = s" by (rule send_rejected)
next
  assume "reachable s"
  then have "send_inv s" by (rule reachable_send_inv)
  then show "length (pendingWrites s) + length (timers s) \<le> 1"
    by (simp add: send_inv_def)
next
  assume "reachable s" and "pendingWrites s \<noteq> [] \<or> timers s \<noteq> []"
  with reachable_send_inv [of s] show "sending s"
    by (auto simp: send_inv_def)
next
  assume "sending s \<and> fire e s = Some s' \<and> \<not> sending s'"
  with only_timer_clears [of s e s'] show "e = CooldownElapsed"
    and "\<exists>due rest. timers s = due # rest \<and> due \<le> now s"
    by blast+
next
  assume a: "reachable s \<and> fire CooldownElapsed s = Some s'"
  then have "send_inv s" by (simp add: reachable_send_inv)
  with a cooldown_end [of s s'] show "\<not> sending s'" and "pendingWrites s' = []" and "timers s' = []"
    by blast+
qed (simp_all add: settle_starts_cooldown send_accepted)

theorem send_gated_witness:
  "executePosition WriterOk demo = demo
   \<and> executePosition WriterOk demo_sending = demo_sending
   \<and> length (pendingWrites demo_sending) + length (timers demo_sending) \<le> 1
   \<and> sending demo_sending
   \<and> pendingWrites demo_cooled = [] \<and> timers demo_cooled = [] \<and> \<not> sending demo_cooled
   \<and> pendingWrites (executePosition WriterOk demo_cooled) =
        [(1, build_command 5 (replicate 5 (Num 90)))]"
proof -
  let ?before = "the (run (butlast send_events) demo)"
  have d: "\<not> connected demo"
    by (simp add: eval demo_def demo_page_def connect_events_def demo_sending_def)
  have r1: "run (connect_events @ [ClickSend WriterOk]) demo \<noteq> None"
    by (simp add: eval demo_def demo_page_def connect_events_def demo_sending_def)
  have r2: "run (butlast send_events) demo \<noteq> None"
    by (simp add: eval demo_def demo_page_def connect_events_def
          demo_sending_def send_events_def demo_cooled_def)
  have f: "fire CooldownElapsed ?before = Some demo_cooled"
    by (simp add: eval demo_def demo_page_def connect_events_def
          demo_sending_def send_events_def demo_cooled_def)
  have p1: "pendingWrites demo_sending \<noteq> []"
    by (simp add: eval demo_def demo_page_def connect_events_def demo_sending_def)
  have c: "connected demo_cooled" "port demo_cooled = Some 1" "numServos demo_cooled = 5"
    "servoAngles demo_cooled = replicate 5 (Num 90)"
    by (simp_all add: eval demo_def demo_page_def connect_events_def
          demo_sending_def send_events_def demo_cooled_def)
  have reach1: "reachable demo_sending"
    unfolding demo_sending_def by (rule run_demo [OF r1])
  have reach2: "reachable ?before"
    by (rule run_demo [OF r2])
  note t1 = send_gated [of demo WriterOk]
  note t2 = send_gated [of demo_sending WriterOk]
  note t3 = send_gated [of ?before _ _ _ _ _ _ demo_cooled]
  note t4 = send_gated [of demo_cooled _ _ _ 1]
  from t1 d have g1: "executePosition WriterOk demo = demo" by blast
  from t2 reach1 p1 have g2: "sending demo_sending"
    and g3: "length (pendingWrites demo_sending) + length (timers demo_sending) \<le> 1"
    by blast+
  from t2 g2 have g4: "executePosition WriterOk demo_sending = demo_sending" by blast
  from t3 reach2 f have g5: "\<not> sending demo_cooled \<and> pendingWrites demo_cooled = []
      \<and> timers demo_cooled = []"
    by blast
  from t4 c g5 have g6: "pendingWrites (executePosition WriterOk demo_cooled) =
      [(1, build_command 5 (replicate 5 (Num 90)))]"
    by simp
  from g1 g2 g3 g4 g5 g6 show ?thesis by blast
qed

section \<open>The command line trimmed\<close>

lemma trim_line:
  assumes "xs \<noteq> []" and "\<not> is_space (hd xs)" and "\<not> is_space (last xs)"
  shows "trim (xs @ [newline]) = xs"
proof -
  from assms(1) obtain x rest where xs: "xs = x # rest" by (cases xs) auto
  with assms(2) have front: "dropWhile is_space (xs @ [newline]) = xs @ [newline]"
    by simp
  from assms(1) obtain ys y where snoc: "xs = ys @ [y]" by (cases xs rule: rev_cases) auto
  with assms(3) have rear: "dropWhile is_space (rev xs) = rev xs"
    by simp
  have nl: "is_space newline" by (simp add: is_space_def newline_def)
  show ?thesis
    unfolding trim_def front by (simp add: nl rear)
qed

lemma decimal_last: "\<not> is_space (last (decimal n))"
proof -
  have "last (decimal n) \<in> set (decimal n)"
    by (simp add: decimal_nonempty)
  with decimal_digits [of n] have "plain_digit (last (decimal n))"
    by (simp add: list_all_iff)
  then show ?thesis by (rule plain_digit_props(2))
qed

lemma number_text_last: "number_text a \<noteq> [] \<and> \<not> is_space (last (number_text a))"
proof (cases a)
  case (Num v)
  then show ?thesis by (simp add: decimal_nonempty decimal_last)
qed (simp_all add: is_space_def)

lemma command_item_ends:
  "command_item angles k \<noteq> []" "hd (command_item angles k) = CHR ''S''"
  "\<not> is_space (last (command_item angles k))"
  using number_text_last [of "array_get angles k"]
  by (simp_all add: command_item_def)

lemma join_ends:
  assumes "items \<noteq> []" and "\<forall>x\<in>set items. x \<noteq> []"
  shows "join sep items \<noteq> []" and "hd (join sep items) = hd (hd items)"
    and "last (join sep items) = last (last items)"
  using assms
  by (induction sep items rule: join.induct) auto

lemma trim_build_command:
  "trim (build_command n angles) = command_loop 0 n angles ''''"
proof (cases "n = 0")
  case True
  then show ?thesis
    by (simp add: build_command_def command_loop_join trim_def is_space_def newline_def)
next
  case False
  let ?items = "map (command_item angles) [0..<n]"
  from False have ne: "?items \<noteq> []" by simp
  have all: "\<forall>x\<in>set ?items. x \<noteq> []"
    by (auto simp: command_item_ends)
  from False have "hd ?items = command_item angles 0"
    by (simp add: hd_map upt_conv_Cons)
  with join_ends(2) [OF ne all] have h: "\<not> is_space (hd (join '','' ?items))"
    by (simp add: command_item_ends is_space_def)
  from ne have "last ?items = command_item angles (n - 1)"
    using False by (simp add: last_map last_upt)
  with join_ends(3) [OF ne all] have l: "\<not> is_space (last (join '','' ?items))"
    by (simp add: command_item_ends)
  from trim_line [OF join_ends(1) [OF ne all] h l] show ?thesis
    by (simp add: build_command_def command_loop_join)
qed

lemma butlast_build_command:
  "butlast (build_command n angles) = command_loop 0 n angles ''''"
  by (simp add: build_command_def)

section \<open>What a send changes\<close>

lemma write_settled_result:
  assumes "pendingWrites s ! k = (p, command)"
  shows "lastCommand (write_settled k Written s) = trim command"
    and "lastCommand (write_settled k (WriteFailed msg) s) = lastCommand s"
    and "alerts (write_settled k Written s) = alerts s"
    and "alerts (write_settled k (WriteFailed msg) s) =
           alerts s @ [''Failed to execute command: '' @ msg]"
    and "console (write_settled k (WriteFailed msg) s) =
           console s @ [''[ERROR] Command execution failed: '' @ msg]"
    and "transport (write_settled k r s) = transport s @ [ReleaseWriter p]"
  using assms
  by (simp_all add: write_settled_def Let_def start_cooldown_def send_failed_def
        split: write_result.split)

text \<open>
  C10, as the code has it. A send that is accepted queues the command line built from
  the angles of that moment. When its write completes, \<^verbatim>\<open>lastCommand\<close> becomes that line
  without its trailing newline; when the write throws, \<^verbatim>\<open>lastCommand\<close> stays, the
  failure goes to the console and into one alert, and nothing is thrown on. Neither the
  call, nor the settling of the write, nor the timer changes the port, the connection
  flag, the angle vector, the joint count, the reader or the promise of its pipe. The
  settling leaves the busy flag \<^verbatim>\<open>_sending\<close> as the accepted call has set it, and the
  timer clears it. So the fields of the controller that a send changes are
  \<^verbatim>\<open>lastCommand\<close> and \<^verbatim>\<open>_sending\<close>.
\<close>

theorem send_changes:
  "(connected s \<and> port s = Some p \<and> \<not> sending s \<longrightarrow>
      pendingWrites (executePosition WriterOk s) =
        pendingWrites s @ [(p, build_command (numServos s) (servoAngles s))])
   \<and> (pendingWrites s ! k = (p, build_command n angles) \<longrightarrow>
        lastCommand (write_settled k Written s) = butlast (build_command n angles)
        \<and> alerts (write_settled k Written s) = alerts s
        \<and> lastCommand (write_settled k (WriteFailed msg) s) = lastCommand s
        \<and> alerts (write_settled k (WriteFailed msg) s) =
            alerts s @ [''Failed to execute command: '' @ msg])
   \<and> lastCommand (executePosition g s) = lastCommand s
   \<and> servoAngles (executePosition g s) = servoAngles s
   \<and> port (executePosition g s) = port s
   \<and> connected (executePosition g s) = connected s
   \<and> numServos (executePosition g s) = numServos s
   \<and> reader (executePosition g s) = reader s
   \<and> readableStreamClosed (executePosition g s) = readableStreamClosed s
   \<and> servoAngles (write_settled k r s) = servoAngles s
   \<and> port (write_settled k r s) = port s
   \<and> connected (write_settled k r s) = connected s
   \<and> numServos (write_settled k r s) = numServos s
   \<and> reader (write_settled k r s) = reader s
   \<and> readableStreamClosed (write_settled k r s) = readableStreamClosed s
   \<and> sending (write_settled k r s) = sending s
   \<and> lastCommand (cooldown_callback s) = lastCommand s
   \<and> servoAngles (cooldown_callback s) = servoAngles s
   \<and> port (cooldown_callback s) = port s
   \<and> connected (cooldown_callback s) = connected s
   \<and> numServos (cooldown_callback s) = numServos s
   \<and> reader (cooldown_callback s) = reader s
   \<and> readableStreamClosed (cooldown_callback s) = readableStreamClosed s
   \<and> sending (cooldown_callback s) = False"
  by (simp add: send_accepted write_settled_result trim_build_command butlast_build_command
        cooldown_callback_def Let_def)

theorem send_changes_witness:
  "pendingWrites demo_sending = [(1, build_command 5 (replicate 5 (Num 90)))]
   \<and> lastCommand (write_settled 0 Written demo_sending) = ''S1 90,S2 90,S3 90,S4 90,S5 90''
   \<and> lastCommand (write_settled 0 (WriteFailed ''lost'') demo_sending) = ''Connected''
   \<and> alerts (write_settled 0 (WriteFailed ''lost'') demo_sending) =
        [''Failed to execute command: lost'']"
proof -
  have c: "connected demo_connected" "port demo_connected = Some 1" "\<not> sending demo_connected"
    "pendingWrites demo_connected = []" "numServos demo_connected = 5"
    "servoAngles demo_connected = replicate 5 (Num 90)"
    by (simp_all add: eval demo_def demo_page_def connect_events_def
          demo_connected_def demo_sending_def)
  have s: "demo_sending = executePosition WriterOk demo_connected"
    by (simp add: eval demo_def demo_page_def connect_events_def
          demo_connected_def demo_sending_def)
  have l: "lastCommand demo_sending = ''Connected''" "alerts demo_sending = []"
    by (simp_all add: eval demo_def demo_page_def connect_events_def
          demo_connected_def demo_sending_def)
  have b: "butlast (build_command 5 (replicate 5 (Num 90))) = ''S1 90,S2 90,S3 90,S4 90,S5 90''"
    by (simp add: eval demo_def demo_page_def connect_events_def
          demo_connected_def demo_sending_def)
  from send_changes [of demo_connected 1] c s
  have p: "pendingWrites demo_sending = [(1, build_command 5 (replicate 5 (Num 90)))]"
    by simp
  then have "pendingWrites demo_sending ! 0 = (1, build_command 5 (replicate 5 (Num 90)))"
    by simp
  with send_changes [of demo_sending 1 0 5 "replicate 5 (Num 90)" "''lost''"] p l b
  show ?thesis by simp
qed

text \<open>
  As stated, C10 fails for the busy flag: the accepted send sets \<^verbatim>\<open>_sending\<close>,
  a field of the controller other than \<^verbatim>\<open>lastCommand\<close>.
\<close>

theorem send_sets_busy_flag:
  "sending demo_connected = False \<and> sending (executePosition WriterOk demo_connected) = True"
  by (simp add: eval demo_def demo_page_def connect_events_def demo_connected_def)

section \<open>A connect that fails\<close>

lemma connect_denied:
  "connect (RequestDenied msg) s =
     s\<lparr>console := console s @ [''[ERROR] Connection failed: '' @ msg],
       alerts := alerts s @ [''Connection failed: '' @ msg]\<rparr>"
  by (simp add: connect_def connect_call_def port_settled_def connect_failed_def Let_def)

lemma connect_open_rejected:
  "connect (OpenRejected p msg) s =
     s\<lparr>port := Some p, transport := transport s @ [OpenPort p 9600],
       console := console s @ [''[ERROR] Connection failed: '' @ msg],
       alerts := alerts s @ [''Connection failed: '' @ msg]\<rparr>"
  by (simp add: connect_def connect_call_def port_settled_def open_settled_def
        connect_failed_def Let_def)

text \<open>
  C5, as the code has it. A \<^verbatim>\<open>connect\<close> that fails leaves the connection flag as it was
  (not connected), raises exactly one alert, beside one line on the console, and starts no
  read task. When the request for a port fails, nothing else changes. When the opening
  fails, nothing else changes but this: the port that was granted has been asked to open
  and stays in \<^verbatim>\<open>this.port\<close>.
\<close>

theorem connect_fails:
  "connect (RequestDenied msg) s =
     s\<lparr>console := console s @ [''[ERROR] Connection failed: '' @ msg],
       alerts := alerts s @ [''Connection failed: '' @ msg]\<rparr>
   \<and> connect (OpenRejected p msg) s =
     s\<lparr>port := Some p, transport := transport s @ [OpenPort p 9600],
       console := console s @ [''[ERROR] Connection failed: '' @ msg],
       alerts := alerts s @ [''Connection failed: '' @ msg]\<rparr>
   \<and> connected (connect (RequestDenied msg) s) = connected s
   \<and> connected (connect (OpenRejected p msg) s) = connected s
   \<and> readTasks (connect (RequestDenied msg) s) = readTasks s
   \<and> readTasks (connect (OpenRejected p msg) s) = readTasks s
   \<and> port (connect (RequestDenied msg) s) = port s
   \<and> port (connect (OpenRejected p msg) s) = Some p
   \<and> alerts (connect (RequestDenied msg) s) = alerts s @ [''Connection failed: '' @ msg]
   \<and> alerts (connect (OpenRejected p msg) s) = alerts s @ [''Connection failed: '' @ msg]"
  by (simp add: connect_denied connect_open_rejected)

text \<open>
  As stated, C5 fails when the opening fails: the controller started without a
  port, and after the failed \<^verbatim>\<open>connect\<close> it holds port 7.
\<close>

theorem connect_keeps_port:
  "port demo = None \<and> connected (connect (OpenRejected 7 ''busy'') demo) = False
   \<and> port (connect (OpenRejected 7 ''busy'') demo) = Some 7"
  by (simp add: connect_open_rejected) (simp add: eval demo_def demo_page_def)

section \<open>The teardown\<close>

lemma disconnect_ends:
  "port (disconnect td s) = None" "connected (disconnect td s) = False"
  "lastCommand (disconnect td s) = ''Disconnected''"
  "connectBtn (disconnect td s) = ''CONNECT''"
  by (simp_all add: disconnect_def Let_def split: option.split)

lemma disconnect_transport:
  "transport (disconnect td s) =
     transport s @
     (case port s of
        None \<Rightarrow> []
      | Some p \<Rightarrow>
          (case reader s of
             None \<Rightarrow> []
           | Some r \<Rightarrow> if cancelThrows td then [CancelReader r] else [CancelReader r, ReleaseReader r])
          @ [ClosePort p])"
  by (simp add: disconnect_def Let_def split: option.split)

lemma connect_opened:
  "port (connect (Opened p rs) s) = Some p" "connected (connect (Opened p rs) s) = True"
  "lastCommand (connect (Opened p rs) s) = ''Connected''"
  by (simp_all add: connect_def connect_call_def port_settled_def open_settled_def Let_def
        startReading_def split: read_start.split)

text \<open>
  C7, as the code has it. For every way the teardown calls may throw, \<^verbatim>\<open>disconnect\<close>
  returns with the port cleared, the controller not connected and \<^verbatim>\<open>lastCommand\<close> set to
  \<^verbatim>\<open>Disconnected\<close>. With a port held it asks the reader, if there is one, to cancel and
  releases the reader's lock (a \<^verbatim>\<open>cancel\<close> that throws skips the release), then closes
  the port; without a port it does nothing to the transport. It never touches a writer:
  a send that waits for its write still waits, and its lock is released by the send itself
  when the write settles. A click on the button disconnects when the controller is
  connected and starts no port request then; \<^verbatim>\<open>connect\<close> itself has no guard and takes the
  newly granted port also when the controller is connected.
\<close>

theorem disconnect_tears_down:
  "port (disconnect td s) = None
   \<and> connected (disconnect td s) = False
   \<and> lastCommand (disconnect td s) = ''Disconnected''
   \<and> transport (disconnect td s) =
       transport s @
       (case port s of
          None \<Rightarrow> []
        | Some p \<Rightarrow>
            (case reader s of
               None \<Rightarrow> []
             | Some r \<Rightarrow>
                 if cancelThrows td then [CancelReader r] else [CancelReader r, ReleaseReader r])
            @ [ClosePort p])
   \<and> pendingWrites (disconnect td s) = pendingWrites s
   \<and> sending (disconnect td s) = sending s
   \<and> servoAngles (disconnect td s) = servoAngles s
   \<and> (connected s \<longrightarrow> toggleConnection td s = disconnect td s
                       \<and> pendingRequests (toggleConnection td s) = pendingRequests s)
   \<and> (\<not> connected s \<longrightarrow> toggleConnection td s = connect_call s)
   \<and> port (connect (Opened p rs) s) = Some p
   \<and> connected (connect (Opened p rs) s) = True"
  by (simp add: disconnect_ends disconnect_transport connect_opened toggleConnection_def)

theorem disconnect_tears_down_witness:
  "toggleConnection quiet demo_connected = disconnect quiet demo_connected
   \<and> port (toggleConnection quiet demo_connected) = None
   \<and> connected (toggleConnection quiet demo_connected) = False
   \<and> transport (toggleConnection quiet demo_connected) =
       [OpenPort 1 9600, PipeTo 1, CancelReader 1, ReleaseReader 1, ClosePort 1]
   \<and> toggleConnection quiet demo = connect_call demo"
proof -
  have c: "connected demo_connected" "\<not> connected demo" "port demo_connected = Some 1"
    "reader demo_connected = Some 1" "transport demo_connected = [OpenPort 1 9600, PipeTo 1]"
    "\<not> cancelThrows quiet"
    by (simp_all add: eval demo_def demo_page_def connect_events_def demo_connected_def quiet_def)
  from disconnect_tears_down [of quiet demo_connected] disconnect_tears_down [of quiet demo] c
  show ?thesis by simp
qed

text \<open>
  As stated, C7 fails in three places. The controller that was never connected has
  \<^verbatim>\<open>lastCommand\<close> \<^verbatim>\<open>None\<close>, and \<^verbatim>\<open>disconnect\<close> changes it. The connected controller
  holds port 1, and \<^verbatim>\<open>connect\<close> replaces it by port 2. The controller whose send waits for
  its write still has that send waiting after \<^verbatim>\<open>disconnect\<close>, and no writer was released.
\<close>

theorem disconnect_not_noop:
  "connected demo = False \<and> port demo = None \<and> lastCommand demo = ''None''
   \<and> lastCommand (disconnect quiet demo) = ''Disconnected''
   \<and> connected demo_connected = True \<and> port demo_connected = Some 1
   \<and> port (connect (Opened 2 Reading) demo_connected) = Some 2
   \<and> pendingWrites (disconnect quiet demo_sending) =
        [(1, ''S1 90,S2 90,S3 90,S4 90,S5 90'' @ [newline])]
   \<and> transport (disconnect quiet demo_sending) =
        [OpenPort 1 9600, PipeTo 1, GetWriter 1,
         Write 1 (''S1 90,S2 90,S3 90,S4 90,S5 90'' @ [newline]),
         CancelReader 1, ReleaseReader 1, ClosePort 1]"
  by (simp add: disconnect_ends connect_opened disconnect_transport) (simp add: eval demo_def demo_page_def connect_events_def
        demo_connected_def demo_sending_def quiet_def)

section \<open>The loop of the reset\<close>

lemma home_fold:
  assumes "m \<le> length xs"
  shows "fold (\<lambda>i ys. array_set ys (i - 1) (Num 90)) [1..<m + 1] xs =
           replicate m (Num 90) @ drop m xs"
  using assms
proof (induction m)
  case 0
  then show ?case by simp
next
  case (Suc m)
  then have lt: "m < length xs" by simp
  have "[1..<Suc m + 1] = [1..<m + 1] @ [Suc m]" by simp
  then have "fold (\<lambda>i ys. array_set ys (i - 1) (Num 90)) [1..<Suc m + 1] xs =
      array_set (replicate m (Num 90) @ drop m xs) m (Num 90)"
    using Suc by (simp del: upt_Suc)
  also have "\<dots> = (replicate m (Num 90) @ drop m xs)[m := Num 90]"
    using lt by (simp add: array_set_def)
  also have "\<dots> = replicate m (Num 90) @ (drop m xs)[0 := Num 90]"
    by (simp add: list_update_append)
  also have "drop m xs = xs ! m # drop (Suc m) xs"
    using lt by (simp add: Cons_nth_drop_Suc)
  also have "replicate m (Num 90) @ (xs ! m # drop (Suc m) xs)[0 := Num 90] =
      replicate (Suc m) (Num 90) @ drop (Suc m) xs"
    by (simp add: replicate_append_same)
  finally show ?case .
qed

lemma reset_loop_runs:
  assumes "\<forall>i\<in>set is. 1 \<le> i \<and> i \<le> length (cards s)"
  shows "\<exists>s'. reset_loop is s = Inr s'
           \<and> servoAngles s' = fold (\<lambda>i ys. array_set ys (i - 1) (Num 90)) is (servoAngles s)
           \<and> s' = s\<lparr>servoAngles := servoAngles s', cards := cards s'\<rparr>"
  using assms
proof (induction "is" arbitrary: s)
  case Nil
  then show ?case by simp
next
  case (Cons i rest)
  from Cons.prems obtain c where c: "card_at s i = Some c"
    by (auto simp: card_at_def)
  let ?t = "set_card i (c\<lparr>sliderValue := ''90'', inputValue := ''90'', valueText := ''90'' @ [degree]\<rparr>) s
               \<lparr>servoAngles := array_set (servoAngles s) (i - 1) (Num 90)\<rparr>"
  from Cons.prems have "\<forall>k\<in>set rest. 1 \<le> k \<and> k \<le> length (cards ?t)"
    by simp
  from Cons.IH [OF this] obtain s' where s': "reset_loop rest ?t = Inr s'"
    and a: "servoAngles s' = fold (\<lambda>i ys. array_set ys (i - 1) (Num 90)) rest (servoAngles ?t)"
    and e: "s' = ?t\<lparr>servoAngles := servoAngles s', cards := cards s'\<rparr>"
    by blast
  from e have "s' = s\<lparr>servoAngles := servoAngles s', cards := cards s'\<rparr>"
    by (simp add: set_card_def)
  with s' a c show ?case by simp
qed

lemma reset_loop_home:
  assumes "length (cards s) = numServos s" and "length (servoAngles s) = numServos s"
  shows "\<exists>s'. reset_loop [1..<numServos s + 1] s = Inr s'
           \<and> s' = s\<lparr>servoAngles := replicate (numServos s) (Num 90), cards := cards s'\<rparr>"
proof -
  from assms(1) have "\<forall>i\<in>set [1..<numServos s + 1]. 1 \<le> i \<and> i \<le> length (cards s)"
    by auto
  from reset_loop_runs [OF this] obtain s' where s': "reset_loop [1..<numServos s + 1] s = Inr s'"
    and a: "servoAngles s' =
      fold (\<lambda>i ys. array_set ys (i - 1) (Num 90)) [1..<numServos s + 1] (servoAngles s)"
    and e: "s' = s\<lparr>servoAngles := servoAngles s', cards := cards s'\<rparr>"
    by blast
  from a assms(2) home_fold [of "numServos s" "servoAngles s"]
  have "servoAngles s' = replicate (numServos s) (Num 90)"
    by (simp del: upt_Suc)
  with s' e show ?thesis by metis
qed

lemma reset_result:
  assumes "length (cards s) = numServos s" and "length (servoAngles s) = numServos s"
  shows "\<exists>s1. resetAllServos g s = Inr (if connected s then executePosition g s1 else s1)
           \<and> servoAngles s1 = replicate (numServos s) (Num 90)
           \<and> numServos s1 = numServos s \<and> connected s1 = connected s \<and> port s1 = port s
           \<and> sending s1 = sending s \<and> pendingWrites s1 = pendingWrites s
           \<and> timers s1 = timers s \<and> transport s1 = transport s \<and> alerts s1 = alerts s
           \<and> now s1 = now s"
proof -
  from reset_loop_home [OF assms] obtain s0
    where l: "reset_loop [1..<numServos s + 1] s = Inr s0"
      and e: "s0 = s\<lparr>servoAngles := replicate (numServos s) (Num 90), cards := cards s0\<rparr>"
    by blast
  let ?s2 = "updateSystemState s0"
  let ?s3 = "?s2\<lparr>console := console ?s2 @ [''[SYSTEM] All joints reset to home position'']\<rparr>"
  have f: "servoAngles s0 = replicate (numServos s) (Num 90)" "numServos s0 = numServos s"
    "connected s0 = connected s" "port s0 = port s" "sending s0 = sending s"
    "pendingWrites s0 = pendingWrites s" "timers s0 = timers s" "transport s0 = transport s"
    "alerts s0 = alerts s" "now s0 = now s"
    by (subst e, simp)+
  from l f have "resetAllServos g s = Inr (if connected s then executePosition g ?s3 else ?s3)"
    by (simp add: resetAllServos_def Let_def)
  with f show ?thesis
    by (intro exI [of _ ?s3]) simp
qed

section \<open>The reset and its send\<close>

text \<open>
  C8. On a controller with a card and an angle for every joint, as every reachable one
  is, \<^verbatim>\<open>resetAllServos\<close> never throws and leaves every angle at 90, whatever the angles
  were. When the controller is not connected nothing is sent. When it is connected
  \<^verbatim>\<open>executePosition\<close> is called exactly once, on the state with all angles at 90 and with
  the port, the busy flag and the pending work as they were: like any send it is dropped
  when the flag is set, and otherwise it writes the line of the all-90 vector, or, when
  no writer can be had, fails with the alert of every failed send and returns all the same.
\<close>

theorem reset_home:
  assumes "length (cards s) = numServos s" and "length (servoAngles s) = numServos s"
  shows "\<exists>s' s1. resetAllServos g s = Inr s'
           \<and> servoAngles s' = replicate (numServos s) (Num 90)
           \<and> s' = (if connected s then executePosition g s1 else s1)
           \<and> servoAngles s1 = replicate (numServos s) (Num 90)
           \<and> numServos s1 = numServos s \<and> connected s1 = connected s \<and> port s1 = port s
           \<and> sending s1 = sending s \<and> pendingWrites s1 = pendingWrites s
           \<and> timers s1 = timers s \<and> transport s1 = transport s \<and> alerts s1 = alerts s
           \<and> (\<not> connected s \<longrightarrow>
                 transport s' = transport s \<and> pendingWrites s' = pendingWrites s
                 \<and> sending s' = sending s)
           \<and> (connected s \<and> port s = Some p \<and> \<not> sending s \<and> g = WriterOk \<longrightarrow>
                 transport s' = transport s @
                   [GetWriter p,
                    Write p (build_command (numServos s) (replicate (numServos s) (Num 90)))]
                 \<and> pendingWrites s' = pendingWrites s @
                   [(p, build_command (numServos s) (replicate (numServos s) (Num 90)))])
           \<and> (connected s \<and> port s = Some p \<and> \<not> sending s \<and> g = GetWriterThrows msg \<longrightarrow>
                 transport s' = transport s
                 \<and> alerts s' = alerts s @ [''Failed to execute command: '' @ msg])
           \<and> (connected s \<and> sending s \<longrightarrow> s' = s1)
           \<and> (reachable t \<longrightarrow>
                 length (cards t) = numServos t \<and> length (servoAngles t) = numServos t)"
proof -
  from reset_result [OF assms, of g] obtain s1
    where r: "resetAllServos g s = Inr (if connected s then executePosition g s1 else s1)"
      and f: "servoAngles s1 = replicate (numServos s) (Num 90)"
        "numServos s1 = numServos s" "connected s1 = connected s" "port s1 = port s"
        "sending s1 = sending s" "pendingWrites s1 = pendingWrites s"
        "timers s1 = timers s" "transport s1 = transport s" "alerts s1 = alerts s"
    by blast
  let ?s' = "if connected s then executePosition g s1 else s1"
  have w: "reachable t \<longrightarrow> length (cards t) = numServos t \<and> length (servoAngles t) = numServos t"
    using reachable_wf [of t] by (simp add: well_formed_def)
  have ok: "connected s \<and> port s = Some p \<and> \<not> sending s \<and> g = WriterOk \<longrightarrow>
      transport ?s' = transport s @
        [GetWriter p, Write p (build_command (numServos s) (replicate (numServos s) (Num 90)))]
      \<and> pendingWrites ?s' = pendingWrites s @
        [(p, build_command (numServos s) (replicate (numServos s) (Num 90)))]"
    using f send_accepted(2,3) [of s1 p] by simp
  have bad: "connected s \<and> port s = Some p \<and> \<not> sending s \<and> g = GetWriterThrows msg \<longrightarrow>
      transport ?s' = transport s \<and> alerts ?s' = alerts s @ [''Failed to execute command: '' @ msg]"
    using f by (simp add: executePosition_def Let_def start_cooldown_def send_failed_def)
  have busy: "connected s \<and> sending s \<longrightarrow> ?s' = s1"
    using f send_rejected [of s1 g] by simp
  have idle: "\<not> connected s \<longrightarrow>
      transport ?s' = transport s \<and> pendingWrites ?s' = pendingWrites s \<and> sending ?s' = sending s"
    using f by simp
  have angles: "servoAngles ?s' = replicate (numServos s) (Num 90)"
    using f by simp
  from r f w ok bad busy idle angles show ?thesis
    by (intro exI [of _ ?s'] exI [of _ s1]) (simp only: simp_thms)
qed

theorem reset_home_witness:
  "servoAngles demo_connected_moved = [Num 90, Num 45, Num 90, Num 90, Num 90]
   \<and> (\<exists>s'. resetAllServos WriterOk demo_connected_moved = Inr s'
          \<and> servoAngles s' = replicate 5 (Num 90)
          \<and> transport s' = [OpenPort 1 9600, PipeTo 1, GetWriter 1,
                            Write 1 (build_command 5 (replicate 5 (Num 90)))])
   \<and> (\<exists>s'. resetAllServos WriterOk demo_moved = Inr s'
          \<and> servoAngles s' = replicate 5 (Num 90) \<and> transport s' = [])"
proof -
  have r5: "replicate 5 (Num 90) = [Num 90, Num 90, Num 90, Num 90, Num 90]"
    by (simp add: eval_nat_numeral)
  have a: "servoAngles demo_connected_moved = [Num 90, Num 45, Num 90, Num 90, Num 90]"
    "length (cards demo_connected_moved) = numServos demo_connected_moved"
    "length (servoAngles demo_connected_moved) = numServos demo_connected_moved"
    "numServos demo_connected_moved = 5" "connected demo_connected_moved"
    "port demo_connected_moved = Some 1" "\<not> sending demo_connected_moved"
    "transport demo_connected_moved = [OpenPort 1 9600, PipeTo 1]"
    by (simp_all add: eval demo_def demo_page_def connect_events_def
          demo_connected_moved_def eval_input r5)
  have b: "length (cards demo_moved) = numServos demo_moved"
    "length (servoAngles demo_moved) = numServos demo_moved"
    "numServos demo_moved = 5" "\<not> connected demo_moved" "transport demo_moved = []"
    by (simp_all add: eval demo_def demo_page_def connect_events_def
          demo_connected_moved_def eval_input demo_moved_def)
  from reset_home [OF a(2,3), of WriterOk 1] a
  have one: "\<exists>s'. resetAllServos WriterOk demo_connected_moved = Inr s'
          \<and> servoAngles s' = replicate 5 (Num 90)
          \<and> transport s' = [OpenPort 1 9600, PipeTo 1, GetWriter 1,
                            Write 1 (build_command 5 (replicate 5 (Num 90)))]"
    by auto
  from reset_home [OF b(1,2), of WriterOk] b
  have two: "\<exists>s'. resetAllServos WriterOk demo_moved = Inr s'
          \<and> servoAngles s' = replicate 5 (Num 90) \<and> transport s' = []"
    by auto
  from a(1) one two show ?thesis by blast
qed

section \<open>The angles stay in range\<close>

lemma wf_updateFromInput:
  assumes wf: "well_formed s" and u: "updateFromInput j s = Inr s'"
  shows "well_formed s'"
proof -
  from u obtain c where c: "card_at s j = Some c"
    by (auto simp: updateFromInput_def split: option.splits)
  show ?thesis
  proof (cases "valid_angle (parseInt (inputValue c))")
    case True
    let ?a = "parseInt (inputValue c)"
    have b: "card_bounds (c\<lparr>sliderValue := number_text ?a, valueText := number_text ?a @ [degree]\<rparr>)"
      using card_at_wf(5) [OF wf c] by (simp add: card_bounds_def)
    from u c True have "s' = updateSystemState (set_card j
        (c\<lparr>sliderValue := number_text ?a, valueText := number_text ?a @ [degree]\<rparr>)
        (s\<lparr>servoAngles := array_set (servoAngles s) (j - 1) ?a\<rparr>))"
      by (simp add: updateFromInput_def Let_def in_range_iff)
    with wf_store [OF wf c True b] show ?thesis by simp
  next
    case False
    with u c have "s' = s" by (simp add: updateFromInput_def Let_def in_range_iff)
    with wf show ?thesis by simp
  qed
qed

lemma wf_updateFromSlider:
  assumes wf: "well_formed s" and c: "card_at s j = Some c"
    and v: "valid_angle (parseInt (sliderValue c))" and u: "updateFromSlider j s = Inr s'"
  shows "well_formed s'"
proof -
  let ?a = "parseInt (sliderValue c)"
  have b: "card_bounds (c\<lparr>inputValue := number_text ?a, valueText := number_text ?a @ [degree]\<rparr>)"
    using card_at_wf(5) [OF wf c] by (simp add: card_bounds_def)
  from u c have "s' = updateSystemState (set_card j
      (c\<lparr>inputValue := number_text ?a, valueText := number_text ?a @ [degree]\<rparr>)
      (s\<lparr>servoAngles := array_set (servoAngles s) (j - 1) ?a\<rparr>))"
    by (simp add: updateFromSlider_def Let_def)
  with wf_store [OF wf c v b] show ?thesis by simp
qed

lemma type_rejected:
  assumes f: "fire (Type j t) s = Some s'" and bad: "\<not> valid_angle (parseInt t)"
  shows "servoAngles s' = servoAngles s"
proof -
  from f obtain c where c: "card_at s j = Some c"
    and u: "updateFromInput j (set_card j (c\<lparr>inputValue := t\<rparr>) s) = Inr s'"
    by (auto simp: to_option_def split: option.splits if_splits sum.splits)
  have "card_at (set_card j (c\<lparr>inputValue := t\<rparr>) s) j = Some (c\<lparr>inputValue := t\<rparr>)"
    by (rule card_at_set_card [OF c])
  with u bad have "s' = set_card j (c\<lparr>inputValue := t\<rparr>) s"
    by (simp add: updateFromInput_def Let_def in_range_iff)
  then show ?thesis by simp
qed

lemma handlers_run:
  assumes wf: "well_formed s" and j: "1 \<le> j" "j \<le> numServos s"
  shows "fire (Type j t) s \<noteq> None"
    and "0 \<le> v \<and> v \<le> 180 \<longrightarrow> fire (Slide j v) s \<noteq> None"
proof -
  from wf j have len: "j \<le> length (cards s)" by (simp add: well_formed_def)
  with j obtain c where c: "card_at s j = Some c" by (simp add: card_at_def)
  from card_at_wf(5) [OF wf c] have b: "sliderMin c = 0" "sliderMax c = 180"
    by (simp_all add: card_bounds_def)
  have "card_at (set_card j c' s) j = Some c'" for c'
    by (rule card_at_set_card [OF c])
  then show "fire (Type j t) s \<noteq> None" and "0 \<le> v \<and> v \<le> 180 \<longrightarrow> fire (Slide j v) s \<noteq> None"
    using c j b
    by (simp_all add: to_option_def updateFromInput_def updateFromSlider_def Let_def
          del: number_text.simps)
qed

text \<open>
  C3. The constructor yields a controller with one angle per joint, each an integer from 0
  to 180, and every event keeps it so: the slider, the number box, the reset, the send and
  its completion, the steps of connecting, the disconnect, the read loop and the timer.
  So in every reachable state every entry of the angle vector is an integer from 0 to 180.
  The handler of the number box keeps this from any such state and for any text: text that
  does not parse to an integer from 0 to 180 is rejected and the angles stay as they were.
  The handler of the slider has no check of its own and keeps this when the slider holds a
  value in range, which the bounds 0 and 180 of the range widget see to. In a reachable
  state the handlers of the cards do not throw.
\<close>

theorem angles_in_range:
  "well_formed (KukaController n page)
   \<and> (well_formed s \<and> fire e s = Some s' \<longrightarrow> well_formed s')
   \<and> (reachable s \<longrightarrow> list_all valid_angle (servoAngles s) \<and> length (servoAngles s) = numServos s)
   \<and> (well_formed s \<and> updateFromInput j s = Inr s' \<longrightarrow> well_formed s')
   \<and> (fire (Type j t) s = Some s' \<and> \<not> valid_angle (parseInt t) \<longrightarrow> servoAngles s' = servoAngles s)
   \<and> (well_formed s \<and> card_at s j = Some c \<and> valid_angle (parseInt (sliderValue c))
        \<and> updateFromSlider j s = Inr s' \<longrightarrow> well_formed s')
   \<and> (reachable s \<and> 1 \<le> j \<and> j \<le> numServos s \<longrightarrow>
        fire (Type j t) s \<noteq> None \<and> (0 \<le> v \<and> v \<le> 180 \<longrightarrow> fire (Slide j v) s \<noteq> None))"
proof (intro conjI impI)
  show "well_formed (KukaController n page)" by (rule wf_start)
next
  assume "well_formed s \<and> fire e s = Some s'"
  then show "well_formed s'" by (auto intro: wf_fire)
next
  assume "reachable s"
  then have "well_formed s" by (rule reachable_wf)
  then show "list_all valid_angle (servoAngles s)" and "length (servoAngles s) = numServos s"
    by (simp_all add: well_formed_def)
next
  assume "well_formed s \<and> updateFromInput j s = Inr s'"
  then show "well_formed s'" by (auto intro: wf_updateFromInput)
next
  assume "fire (Type j t) s = Some s' \<and> \<not> valid_angle (parseInt t)"
  then show "servoAngles s' = servoAngles s" by (auto intro: type_rejected)
next
  assume "well_formed s \<and> card_at s j = Some c \<and> valid_angle (parseInt (sliderValue c))
        \<and> updateFromSlider j s = Inr s'"
  then show "well_formed s'" by (auto intro: wf_updateFromSlider)
next
  assume a: "reachable s \<and> 1 \<le> j \<and> j \<le> numServos s"
  then have wf: "well_formed s" by (simp add: reachable_wf)
  from a handlers_run(1) [OF wf, of j t] show "fire (Type j t) s \<noteq> None" by simp
  assume "0 \<le> v \<and> v \<le> 180"
  with a handlers_run(2) [OF wf, of j v] show "fire (Slide j v) s \<noteq> None" by simp
qed

theorem angles_in_range_witness:
  "list_all valid_angle (servoAngles demo_connected_moved)
   \<and> servoAngles demo_connected_moved = [Num 90, Num 45, Num 90, Num 90, Num 90]
   \<and> fire (Type 2 ''200'') demo_connected_moved \<noteq> None
   \<and> servoAngles (the (fire (Type 2 ''200'') demo_connected_moved)) =
        servoAngles demo_connected_moved
   \<and> fire (Slide 3 120) demo_connected_moved \<noteq> None"
proof -
  have r5: "replicate 5 (Num 90) = [Num 90, Num 90, Num 90, Num 90, Num 90]"
    by (simp add: eval_nat_numeral)
  have r: "run (connect_events @ [Type 2 ''45'']) demo \<noteq> None"
    by (simp add: eval demo_def demo_page_def connect_events_def
          demo_connected_moved_def eval_input)
  have a: "servoAngles demo_connected_moved = [Num 90, Num 45, Num 90, Num 90, Num 90]"
    "numServos demo_connected_moved = 5"
    by (simp_all add: eval demo_def demo_page_def connect_events_def
          demo_connected_moved_def eval_input r5)
  have p: "\<not> valid_angle (parseInt ''200'')"
    by (simp add: eval_input valid_angle_def is_space_def)
  have reach: "reachable demo_connected_moved"
    unfolding demo_connected_moved_def by (rule run_demo [OF r])
  note t = angles_in_range [of _ _ demo_connected_moved _ _ 2 "''200''" _ 120]
  note u = angles_in_range [of _ _ demo_connected_moved _ _ 3 _ _ 120]
  from t reach a have f: "fire (Type 2 ''200'') demo_connected_moved \<noteq> None" by simp
  then obtain s' where s': "fire (Type 2 ''200'') demo_connected_moved = Some s'" by blast
  note t' = angles_in_range [of _ _ demo_connected_moved _ s' 2 "''200''"]
  from t' s' p have k: "servoAngles s' = servoAngles demo_connected_moved" by blast
  from t reach have v: "list_all valid_angle (servoAngles demo_connected_moved)" by blast
  from u reach a have g: "fire (Slide 3 120) demo_connected_moved \<noteq> None" by simp
  from v a f k s' g show ?thesis by simp
qed

end
